theory Spec2Isabelle
  imports Main "HOL-Library.Char_ord" "HOL-Library.List_Lexorder"
begin

section \<open>Strings and characters\<close>

text \<open>
  JavaScript strings are modelled as lists of 8-bit characters; the development is about
  ASCII text, on which UTF-16 code units and bytes coincide.  The character classes below
  are the ASCII parts of the regular-expression escapes \<open>\d\<close>, \<open>\w\<close> and \<open>\s\<close>.
\<close>

definition lowerChars :: string where
  "lowerChars = ''abcdefghijklmnopqrstuvwxyz''"

definition upperChars :: string where
  "upperChars = ''ABCDEFGHIJKLMNOPQRSTUVWXYZ''"

definition digitChars :: string where
  "digitChars = ''0123456789''"

definition hexChars :: string where
  "hexChars = ''0123456789abcdefABCDEF''"

definition wordChars :: string where
  "wordChars = ''abcdefghijklmnopqrstuvwxyzABCDEFGHIJKLMNOPQRSTUVWXYZ0123456789_''"

definition spaceChars :: string where
  "spaceChars = [CHR '' '', CHR 0x09, CHR 0x0A, CHR 0x0B, CHR 0x0C, CHR 0x0D]"

definition toLowerChar :: "char \<Rightarrow> char" where
  "toLowerChar c = (case map_of (zip upperChars lowerChars) c of Some l \<Rightarrow> l | None \<Rightarrow> c)"

definition toUpperChar :: "char \<Rightarrow> char" where
  "toUpperChar c = (case map_of (zip lowerChars upperChars) c of Some u \<Rightarrow> u | None \<Rightarrow> c)"

definition toLowerCase :: "string \<Rightarrow> string" where
  "toLowerCase s = map toLowerChar s"


definition isSpace :: "char \<Rightarrow> bool" where
  "isSpace c = (c \<in> set spaceChars)"

definition trim :: "string \<Rightarrow> string" where
  "trim s = rev (dropWhile isSpace (rev (dropWhile isSpace s)))"

text \<open>\<open>startsWith s p\<close> is \<open>s.startsWith(p)\<close>; \<open>includesStr s p\<close> is \<open>s.includes(p)\<close>.\<close>

fun startsWith :: "string \<Rightarrow> string \<Rightarrow> bool" where
  "startsWith s [] = True"
| "startsWith [] (p # ps) = False"
| "startsWith (c # cs) (p # ps) = (c = p \<and> startsWith cs ps)"

fun includesStr :: "string \<Rightarrow> string \<Rightarrow> bool" where
  "includesStr [] p = (p = [])"
| "includesStr (c # cs) p = (startsWith (c # cs) p \<or> includesStr cs p)"

section \<open>A backtracking matcher for the regular expressions of the source\<close>

text \<open>
  The regular-expression literals of the source are written as values of \<open>rx\<close> and run by
  a matcher with the priority order of the JavaScript one: a match state is the character
  before the position, the rest of the subject and the captures so far; a matcher maps a
  state to the list of states it can end in, most preferred first.  \<open>Cls neg cs\<close> is a
  character class with members \<open>cs\<close>, negated when \<open>neg\<close> holds; \<open>Bnd\<close> is \<open>\b\<close>,
  \<open>Bol\<close> and \<open>Eol\<close> are \<open>^\<close> and \<open>$\<close>, \<open>BolM\<close> is \<open>^\<close> under the flag \<open>m\<close>, and
  \<open>Look\<close> is a positive lookahead.
\<close>

datatype rx =
    Cls bool string
  | Eps
  | Seq rx rx
  | Alt rx rx
  | Star rx
  | StarLazy rx
  | Grp nat rx
  | Look rx
  | Bnd
  | Bol
  | BolM
  | Eol

type_synonym captures = "(nat \<times> string) list"

type_synonym mstate = "char option \<times> string \<times> captures"

definition clsMatch :: "bool \<Rightarrow> bool \<Rightarrow> string \<Rightarrow> char \<Rightarrow> bool" where
  "clsMatch ci neg cs c =
     ((c \<in> set cs \<or> (ci \<and> (toLowerChar c \<in> set cs \<or> toUpperChar c \<in> set cs))) \<noteq> neg)"

definition isWordBefore :: "char option \<Rightarrow> bool" where
  "isWordBefore p = (case p of None \<Rightarrow> False | Some c \<Rightarrow> c \<in> set wordChars)"

definition isWordAt :: "string \<Rightarrow> bool" where
  "isWordAt s = (case s of [] \<Rightarrow> False | c # _ \<Rightarrow> c \<in> set wordChars)"

definition progress :: "mstate \<Rightarrow> mstate \<Rightarrow> bool" where
  "progress st st' = (length (fst (snd st')) < length (fst (snd st)))"

text \<open>
  Iteration of a quantified atom.  An iteration that consumes nothing is rejected, as the
  JavaScript matcher does, so the length of the subject bounds the number of iterations.
\<close>

fun starGreedy :: "(mstate \<Rightarrow> mstate list) \<Rightarrow> nat \<Rightarrow> mstate \<Rightarrow> mstate list" where
  "starGreedy f 0 st = [st]"
| "starGreedy f (Suc n) st =
     concat (map (starGreedy f n) (filter (progress st) (f st))) @ [st]"

fun starLazy :: "(mstate \<Rightarrow> mstate list) \<Rightarrow> nat \<Rightarrow> mstate \<Rightarrow> mstate list" where
  "starLazy f 0 st = [st]"
| "starLazy f (Suc n) st =
     st # concat (map (starLazy f n) (filter (progress st) (f st)))"

definition capture :: "nat \<Rightarrow> string \<Rightarrow> mstate \<Rightarrow> mstate" where
  "capture n s st =
     (case st of (p, s', caps) \<Rightarrow> (p, s', (n, take (length s - length s') s) # caps))"

primrec rxMatch :: "rx \<Rightarrow> bool \<Rightarrow> mstate \<Rightarrow> mstate list" where
  "rxMatch (Cls neg cs) ci st =
     (case st of
        (p, [], caps) \<Rightarrow> []
      | (p, c # s, caps) \<Rightarrow> if clsMatch ci neg cs c then [(Some c, s, caps)] else [])"
| "rxMatch Eps ci st = [st]"
| "rxMatch (Seq a b) ci st = concat (map (rxMatch b ci) (rxMatch a ci st))"
| "rxMatch (Alt a b) ci st = rxMatch a ci st @ rxMatch b ci st"
| "rxMatch (Star a) ci st = starGreedy (rxMatch a ci) (length (fst (snd st))) st"
| "rxMatch (StarLazy a) ci st = starLazy (rxMatch a ci) (length (fst (snd st))) st"
| "rxMatch (Grp n a) ci st = map (capture n (fst (snd st))) (rxMatch a ci st)"
| "rxMatch (Look a) ci st =
     (case rxMatch a ci st of
        [] \<Rightarrow> []
      | (p', s', caps') # _ \<Rightarrow> [(fst st, fst (snd st), caps')])"
| "rxMatch Bnd ci st =
     (if isWordBefore (fst st) \<noteq> isWordAt (fst (snd st)) then [st] else [])"
| "rxMatch Bol ci st = (if fst st = None then [st] else [])"
| "rxMatch BolM ci st =
     (if fst st = None \<or> fst st = Some (CHR 0x0A) \<or> fst st = Some (CHR 0x0D) then [st] else [])"
| "rxMatch Eol ci st = (if fst (snd st) = [] then [st] else [])"

text \<open>Derived syntax: literals, \<open>+\<close>, \<open>?\<close>, \<open>{n}\<close>, \<open>{n,}\<close>, \<open>{n,m}\<close> and sequences.\<close>

definition rxChr :: "char \<Rightarrow> rx" where
  "rxChr c = Cls False [c]"

definition rxLit :: "string \<Rightarrow> rx" where
  "rxLit s = foldr (\<lambda>c r. Seq (rxChr c) r) s Eps"

definition rxSeqs :: "rx list \<Rightarrow> rx" where
  "rxSeqs rs = foldr Seq rs Eps"

definition rxAlts :: "rx list \<Rightarrow> rx" where
  "rxAlts rs = (case rs of [] \<Rightarrow> Cls False [] | _ \<Rightarrow> foldr Alt (butlast rs) (last rs))"

definition rxPlus :: "rx \<Rightarrow> rx" where
  "rxPlus r = Seq r (Star r)"

definition rxOpt :: "rx \<Rightarrow> rx" where
  "rxOpt r = Alt r Eps"

primrec rxTimes :: "nat \<Rightarrow> rx \<Rightarrow> rx" where
  "rxTimes 0 r = Eps"
| "rxTimes (Suc n) r = Seq r (rxTimes n r)"

primrec rxUpTo :: "nat \<Rightarrow> rx \<Rightarrow> rx" where
  "rxUpTo 0 r = Eps"
| "rxUpTo (Suc n) r = Alt (Seq r (rxUpTo n r)) Eps"

definition rxAtLeast :: "nat \<Rightarrow> rx \<Rightarrow> rx" where
  "rxAtLeast n r = Seq (rxTimes n r) (Star r)"

definition rxBetween :: "nat \<Rightarrow> nat \<Rightarrow> rx \<Rightarrow> rx" where
  "rxBetween n m r = Seq (rxTimes n r) (rxUpTo (m - n) r)"

definition rxDigit :: rx where "rxDigit = Cls False digitChars"
definition rxWord :: rx where "rxWord = Cls False wordChars"
definition rxSpace :: rx where "rxSpace = Cls False spaceChars"
definition rxDot :: rx where "rxDot = Cls True [CHR 0x0A, CHR 0x0D]"
definition rxAny :: rx where "rxAny = Cls True []"

text \<open>
  The first match at the current position, if any; \<open>rxReplace\<close> is
  \<open>String.prototype.replace\<close> with a global regular expression: matches are taken left to
  right without overlap, and after an empty match the scan moves on by one character.
  The replacement is a function of the matched text and the captures.
\<close>

definition matchHere :: "rx \<Rightarrow> bool \<Rightarrow> char option \<Rightarrow> string \<Rightarrow> mstate option" where
  "matchHere r ci p s = (case rxMatch r ci (p, s, []) of [] \<Rightarrow> None | st # _ \<Rightarrow> Some st)"

function rxReplace ::
  "rx \<Rightarrow> bool \<Rightarrow> (string \<Rightarrow> captures \<Rightarrow> string) \<Rightarrow> char option \<Rightarrow> string \<Rightarrow> string" where
  "rxReplace r ci rep p s =
     (case matchHere r ci p s of
        None \<Rightarrow> (case s of [] \<Rightarrow> [] | c # cs \<Rightarrow> c # rxReplace r ci rep (Some c) cs)
      | Some (p', s', caps) \<Rightarrow>
          if length s' < length s
          then rep (take (length s - length s') s) caps @ rxReplace r ci rep p' s'
          else rep [] caps @ (case s of [] \<Rightarrow> [] | c # cs \<Rightarrow> c # rxReplace r ci rep (Some c) cs))"
  by pat_completeness auto
termination
  by (relation "measure (\<lambda>(r, ci, rep, p, s). length s)") auto

declare rxReplace.simps [simp del]

definition replaceAll :: "rx \<Rightarrow> bool \<Rightarrow> string \<Rightarrow> string \<Rightarrow> string" where
  "replaceAll r ci new s = rxReplace r ci (\<lambda>m caps. new) None s"

text \<open>
  \<open>rxSearch\<close> is \<open>RegExp.prototype.exec\<close> from the start of the subject: the index of the
  leftmost match and the state it ends in.  \<open>rxTest\<close> is \<open>RegExp.prototype.test\<close>.
\<close>

fun rxSearch :: "rx \<Rightarrow> bool \<Rightarrow> char option \<Rightarrow> string \<Rightarrow> nat \<Rightarrow> (nat \<times> mstate) option" where
  "rxSearch r ci p [] i =
     (case matchHere r ci p [] of None \<Rightarrow> None | Some st \<Rightarrow> Some (i, st))"
| "rxSearch r ci p (c # cs) i =
     (case matchHere r ci p (c # cs) of
        None \<Rightarrow> rxSearch r ci (Some c) cs (Suc i)
      | Some st \<Rightarrow> Some (i, st))"

definition rxTest :: "rx \<Rightarrow> bool \<Rightarrow> string \<Rightarrow> bool" where
  "rxTest r ci s = (rxSearch r ci None s 0 \<noteq> None)"

text \<open>
  \<open>rxMatchAll\<close> is \<open>String.prototype.matchAll\<close> with a global regular expression: the
  index and the text of every match, left to right.
\<close>

function rxMatchAll :: "rx \<Rightarrow> bool \<Rightarrow> char option \<Rightarrow> string \<Rightarrow> nat \<Rightarrow> (nat \<times> string) list" where
  "rxMatchAll r ci p s i =
     (case matchHere r ci p s of
        None \<Rightarrow> (case s of [] \<Rightarrow> [] | c # cs \<Rightarrow> rxMatchAll r ci (Some c) cs (Suc i))
      | Some (p', s', caps) \<Rightarrow>
          if length s' < length s
          then (i, take (length s - length s') s)
                 # rxMatchAll r ci p' s' (i + (length s - length s'))
          else (i, []) # (case s of [] \<Rightarrow> [] | c # cs \<Rightarrow> rxMatchAll r ci (Some c) cs (Suc i)))"
  by pat_completeness auto
termination
  by (relation "measure (\<lambda>(r, ci, p, s, i). length s)") auto

declare rxMatchAll.simps [simp del]



text \<open>
  \<open>firstGroups r ci s\<close> is \<open>s.match(r)\<close> for an expression that is not global: the
  captures of the leftmost match, if there is one.
\<close>

definition firstGroups :: "rx \<Rightarrow> bool \<Rightarrow> string \<Rightarrow> captures option" where
  "firstGroups r ci s =
     (case rxSearch r ci None s 0 of None \<Rightarrow> None | Some (i, st) \<Rightarrow> Some (snd (snd st)))"

section \<open>The path guard (\<open>PathSecurityValidator\<close>)\<close>

datatype platform = Win32 | Darwin | Linux

text \<open>The denylist of the constructor; every pattern has the flag \<open>i\<close>.\<close>

definition atStart :: "string \<Rightarrow> rx" where
  "atStart s = Seq Bol (rxLit s)"

definition atEnd :: "string \<Rightarrow> rx" where
  "atEnd s = Seq (rxLit s) Eol"

definition linuxPatterns :: "rx list" where
  "linuxPatterns = map atStart
     [''/etc/'', ''/root/'', ''/boot/'', ''/sys/'', ''/proc/'', ''/dev/'', ''/var/log/'',
      ''/usr/bin/'', ''/usr/sbin/'', ''/lib/'', ''/lib64/'', ''/sbin/'', ''/bin/'', ''/tmp/'',
      ''/var/spool/'', ''/var/cache/'', ''/var/run/'', ''/lost+found/'']"

definition driveDir :: "string \<Rightarrow> rx" where
  "driveDir d = rxSeqs [Bol, Cls False upperChars, rxChr (CHR '':''), rxChr (CHR 0x5C),
     rxLit d, rxChr (CHR 0x5C)]"

definition windowsPatterns :: "rx list" where
  "windowsPatterns =
     map driveDir [''Windows'', ''Program Files'', ''ProgramData'',
       ''System Volume Information'', ''Recovery'', ''Boot'', ''$Recycle.Bin'']
     @ map atEnd [''hiberfil.sys'', ''pagefile.sys'', ''swapfile.sys'']"

definition macosPatterns :: "rx list" where
  "macosPatterns = map atStart
     [''/System/'', ''/Library/Application Support/'', ''/Library/LaunchDaemons/'',
      ''/Library/LaunchAgents/'', ''/Library/Frameworks/'', ''/private/'', ''/usr/libexec/'',
      ''/Applications/Utilities/'']"

definition universalPatterns :: "rx list" where
  "universalPatterns =
     [rxLit ''.ssh/'', rxLit ''.gnupg/'', rxLit ''id_rsa'', rxLit ''id_ed25519'',
      atEnd ''.key'', atEnd ''.pem'', rxLit ''shadow'', atEnd ''passwd'', rxLit ''sudoers'']"

definition getPatternsByPlatform :: "platform \<Rightarrow> rx list" where
  "getPatternsByPlatform pf =
     universalPatterns @
     (case pf of
        Win32 \<Rightarrow> windowsPatterns
      | Darwin \<Rightarrow> macosPatterns @ linuxPatterns
      | Linux \<Rightarrow> linuxPatterns)"

definition isBlocked :: "platform \<Rightarrow> string \<Rightarrow> bool" where
  "isBlocked pf absolutePath = list_ex (\<lambda>r. rxTest r True absolutePath) (getPatternsByPlatform pf)"

text \<open>
  What the validator reads from its environment: the platform, \<open>path.normalize\<close> (total
  on strings), \<open>path.resolve\<close>, \<open>fs.lstatSync(p).isSymbolicLink()\<close> and
  \<open>fs.realpathSync\<close>, where \<open>None\<close> stands for the call throwing.  \<open>path.resolve\<close>
  reads \<open>process.cwd()\<close> for a relative path, which throws when the working directory
  has been removed.
\<close>

record pathEnv =
  platformOf :: platform
  normalize :: "string \<Rightarrow> string"
  resolve :: "string \<Rightarrow> string option"
  lstatIsSymlink :: "string \<Rightarrow> bool option"
  realpath :: "string \<Rightarrow> string option"

datatype violationType = TRAVERSAL_ATTEMPT | BLOCKED_PATH_VIOLATION | SYMLINK_TO_BLOCKED

type_synonym securityLog = "(violationType \<times> string) list"

datatype code = INVALID_INPUT | PATH_TOO_LONG | TRAVERSAL_DETECTED | BLOCKED_PATH
  | VALIDATION_ERROR

datatype validation = Valid string | Invalid code

definition maxPathLength :: nat where
  "maxPathLength = 4096"

text \<open>
  \<open>logSecurityViolation\<close> appends the violation with the path cut to 100 characters and
  keeps the last 1000 entries.
\<close>

definition logSecurityViolation :: "securityLog \<Rightarrow> violationType \<Rightarrow> string \<Rightarrow> securityLog" where
  "logSecurityViolation lg ty p =
     (let lg' = lg @ [(ty, take 100 p)]
      in if length lg' > 1000 then drop (length lg' - 1000) lg' else lg')"

text \<open>
  \<open>validatePath\<close> takes the security log and returns the verdict with the new log.  The
  call on the target of a symbolic link is a recursion with no bound in the source, so
  the result is an option and \<open>None\<close> stands for a validation that never returns.  An
  exception of \<open>lstatSync\<close> or \<open>realpathSync\<close> is swallowed and the path accepted.  An
  exception of \<open>path.resolve\<close>, which runs before the traversal test, reaches the outer
  \<open>catch\<close>: the verdict is \<open>VALIDATION_ERROR\<close> and nothing is logged.
  \<open>normalizedPath\<close> is \<open>normalize env filePath\<close>.
\<close>

definition symlinkVerdict ::
  "string \<Rightarrow> validation \<times> securityLog \<Rightarrow> validation \<times> securityLog" where
  "symlinkVerdict absolutePath res =
     (case fst res of
        Invalid c \<Rightarrow> (Invalid c, logSecurityViolation (snd res) SYMLINK_TO_BLOCKED absolutePath)
      | Valid n \<Rightarrow> (Valid absolutePath, snd res))"

partial_function (option) validatePath ::
  "pathEnv \<Rightarrow> securityLog \<Rightarrow> string \<Rightarrow> (validation \<times> securityLog) option" where
  "validatePath env lg filePath =
     (if filePath = [] then Some (Invalid INVALID_INPUT, lg)
      else if length filePath > maxPathLength then Some (Invalid PATH_TOO_LONG, lg)
      else (case resolve env (normalize env filePath) of
              None \<Rightarrow> Some (Invalid VALIDATION_ERROR, lg)
            | Some absolutePath \<Rightarrow>
                if includesStr (normalize env filePath) ''..'' \<or> includesStr filePath ''..''
                then Some (Invalid TRAVERSAL_DETECTED,
                       logSecurityViolation lg TRAVERSAL_ATTEMPT filePath)
                else if isBlocked (platformOf env) absolutePath
                then Some (Invalid BLOCKED_PATH,
                       logSecurityViolation lg BLOCKED_PATH_VIOLATION absolutePath)
                else if lstatIsSymlink env absolutePath = Some True
                then (case realpath env absolutePath of
                        None \<Rightarrow> Some (Valid absolutePath, lg)
                      | Some realPath \<Rightarrow>
                          Option.bind (validatePath env lg realPath)
                            (\<lambda>res. Some (symlinkVerdict absolutePath res)))
                else Some (Valid absolutePath, lg)))"

section \<open>The allow-list of \<open>RobustSearchEngine.getAllFilesSync\<close>\<close>

datatype dirent = FileEnt string | DirEnt string | OtherEnt string

text \<open>
  The synchronous walker works on path strings through \<open>path.resolve\<close>, \<open>path.join\<close>,
  \<open>path.relative\<close>, \<open>path.dirname\<close> and \<open>path.extname\<close>, which are taken from the
  environment, as are \<open>fs.existsSync\<close>, \<open>fs.lstatSync(p).isDirectory()\<close> and
  \<open>fs.readdirSync\<close>.  \<open>None\<close> stands for a call that throws: \<open>path.resolve\<close> and
  \<open>path.relative\<close> read \<open>process.cwd()\<close> for a relative path.  An exception in the
  allow-list test or in \<open>lstatSync\<close> reaches the outer \<open>catch\<close> of the walker, which
  returns the results it has, none at that point; an exception while an entry is
  processed skips the entry.
\<close>

record syncEnv =
  pathResolve :: "string \<Rightarrow> string option"
  pathJoin :: "string \<Rightarrow> string \<Rightarrow> string"
  pathRelative :: "string \<Rightarrow> string \<Rightarrow> string option"
  pathDirname :: "string \<Rightarrow> string"
  pathExtname :: "string \<Rightarrow> string"
  existsSync :: "string \<Rightarrow> bool"
  lstatIsDirectory :: "string \<Rightarrow> bool option"
  readdirSync :: "string \<Rightarrow> dirent list option"

record syncEntry =
  entryPath :: string
  entryRelativePath :: string
  entryName :: string
  entryExtension :: string
  entryDirectory :: string

text \<open>
  \<open>isAllowed\<close> is the test \<open>this.allowedPaths.some(...)\<close>: the allowed paths are tried in
  order until one matches, and both paths are resolved for each.
\<close>

fun isAllowed :: "syncEnv \<Rightarrow> string list \<Rightarrow> string \<Rightarrow> bool option" where
  "isAllowed env [] dirPath = Some False"
| "isAllowed env (allowedPath # rest) dirPath =
     (case pathResolve env allowedPath of
        None \<Rightarrow> None
      | Some resolvedAllowed \<Rightarrow>
          (case pathResolve env dirPath of
             None \<Rightarrow> None
           | Some resolvedTarget \<Rightarrow>
               if startsWith resolvedTarget resolvedAllowed then Some True
               else isAllowed env rest dirPath))"

definition syncSkipDirs :: "string list" where
  "syncSkipDirs =
     [''node_modules'', ''.git'', ''.svn'', ''.hg'', ''target'', ''build'', ''dist'',
      ''bin'', ''obj'', ''.vscode'', ''.idea'', ''__pycache__'', ''.gradle'',
      ''vendor'', ''coverage'', ''.nyc_output'', ''logs'', ''.next'', ''out'',
      ''tmp'', ''temp'', ''.cache'', ''.pytest_cache'', ''.mypy_cache'',
      ''bower_components'', ''jspm_packages'', ''.meteor'', ''.sass-cache'']"

function getAllFilesSync ::
  "syncEnv \<Rightarrow> string list \<Rightarrow> string \<Rightarrow> int \<Rightarrow> nat \<Rightarrow> syncEntry list" where
  "getAllFilesSync env allowedPaths dirPath maxDepth currentDepth =
     (if isAllowed env allowedPaths dirPath \<noteq> Some True then []
      else if \<not> existsSync env dirPath then []
      else case lstatIsDirectory env dirPath of
        None \<Rightarrow> []
      | Some isDir \<Rightarrow>
          if \<not> isDir then []
          else if int currentDepth \<ge> maxDepth then []
          else (case readdirSync env dirPath of
            None \<Rightarrow> []
          | Some entries \<Rightarrow>
              concat (map (\<lambda>entry.
                (case entry of
                  DirEnt nm \<Rightarrow>
                    if startsWith nm ''.'' \<and> nm \<noteq> ''.'' then []
                    else if toLowerCase nm \<in> set syncSkipDirs then []
                    else getAllFilesSync env allowedPaths (pathJoin env dirPath nm) maxDepth
                           (Suc currentDepth)
                | FileEnt nm \<Rightarrow>
                    (case pathRelative env dirPath (pathJoin env dirPath nm) of
                       None \<Rightarrow> []
                     | Some relative \<Rightarrow>
                         [\<lparr>entryPath = pathJoin env dirPath nm,
                           entryRelativePath = relative,
                           entryName = nm,
                           entryExtension = toLowerCase (pathExtname env nm),
                           entryDirectory = pathDirname env (pathJoin env dirPath nm)\<rparr>])
                | OtherEnt nm \<Rightarrow> [])) entries)))"
  by pat_completeness auto
termination
  by (relation "measure (\<lambda>(env, allowedPaths, dirPath, maxDepth, currentDepth).
        nat (maxDepth - int currentDepth))") auto

declare getAllFilesSync.simps [simp del]

section \<open>The file walker (\<open>SmartSearchEngine.getAllFiles\<close>)\<close>

text \<open>
  In the search engine a path is the list of its segments: \<open>path.join\<close> with an entry
  name appends a segment, \<open>path.relative\<close> from the walk root strips the segments of the
  root, \<open>path.dirname\<close> drops the last segment, and \<open>path.extname\<close> and
  \<open>path.basename\<close> read the last one.  \<open>pathString\<close> is the path as text.
\<close>

type_synonym fpath = "string list"

definition pathString :: "fpath \<Rightarrow> string" where
  "pathString p = concat (map (\<lambda>seg. CHR ''/'' # seg) p)"

definition relativeString :: "fpath \<Rightarrow> string" where
  "relativeString p = (case p of [] \<Rightarrow> [] | seg # segs \<Rightarrow> seg @ pathString segs)"

definition basename :: "fpath \<Rightarrow> string" where
  "basename p = (case p of [] \<Rightarrow> [] | _ \<Rightarrow> last p)"

text \<open>
  \<open>path.extname\<close> of a file name: the text from the last dot on; empty when there is no
  dot, when the only dot is the first character, and for the name \<open>..\<close>.
\<close>

definition extname :: "string \<Rightarrow> string" where
  "extname nm =
     (let n = length (takeWhile (\<lambda>c. c \<noteq> CHR ''.'') (rev nm))
      in if n = length nm \<or> Suc n = length nm \<or> nm = ''..'' then []
         else drop (length nm - Suc n) nm)"

record fileEntry =
  path :: fpath
  name :: string
  extension :: string
  relativePath :: fpath
  directory :: fpath
  fileType :: string

record engine =
  maxFileSize :: nat
  maxDepth :: int
  maxFilesToProcess :: nat
  maxResults :: nat
  batchSize :: nat

text \<open>
  The world the engine runs in: \<open>fs.readdir\<close>, the size reported by \<open>fs.stat\<close> and
  \<open>fs.readFile\<close> (\<open>None\<close> when the call rejects), the verdict of the path guard on a
  path, and the constructor \<open>RegExp\<close> on a pattern other than the empty one (\<open>None\<close> when
  it throws a syntax error).
\<close>

record world =
  readdir :: "fpath \<Rightarrow> dirent list option"
  statSize :: "fpath \<Rightarrow> nat option"
  readFile :: "fpath \<Rightarrow> string option"
  pathValid :: "fpath \<Rightarrow> bool"
  compile :: "string \<Rightarrow> rx option"

definition typeTable :: "(string \<times> string list) list" where
  "typeTable =
     [(''java'', [''.java'', ''.jsp'', ''.jspx'', ''.properties'', ''.groovy'', ''.kt'', ''.kts'',
         ''.scala'', ''.clj'']),
      (''javascript'', [''.js'', ''.jsx'', ''.ts'', ''.tsx'', ''.mjs'', ''.cjs'', ''.vue'',
         ''.svelte'', ''.elm'', ''.dart'', ''.gql'', ''.graphql'']),
      (''python'', [''.py'', ''.pyw'', ''.pyi'', ''.ipynb'']),
      (''cpp'', [''.cpp'', ''.c'', ''.cc'', ''.cxx'', ''.h'', ''.hpp'', ''.hxx'', ''.s'', ''.asm'']),
      (''csharp'', [''.cs'']),
      (''web'', [''.html'', ''.htm'', ''.xhtml'', ''.css'', ''.scss'', ''.sass'', ''.less'']),
      (''config'', [''.json'', ''.yaml'', ''.yml'', ''.xml'', ''.toml'', ''.ini'', ''.env'']),
      (''build'', [''.gradle'', ''.maven'', ''.pom'', ''.cmake'', ''.makefile'', ''.dockerfile'']),
      (''sql'', [''.sql'', ''.ddl'', ''.dml'']),
      (''shell'', [''.sh'', ''.bash'', ''.zsh'', ''.ksh'', ''.bat'', ''.ps1'', ''.cmd'']),
      (''docs'', [''.md'', ''.txt'', ''.rst'', ''.adoc'', ''.tex'', ''.bib'', ''.chm'', ''.log'',
         ''.doc'', ''.docx'', ''.odt'', ''.rtf'', ''.wpd'', ''.xls'', ''.xlsx'', ''.ods'', ''.csv'',
         ''.tsv'', ''.ppt'', ''.pptx'', ''.odp'', ''.pdf'', ''.epub'', ''.mobi'', ''.ipynb'',
         ''.rmd'', ''.notebook'', ''.nb''])]"

definition getFileType :: "fpath \<Rightarrow> string" where
  "getFileType filePath =
     (let ext = toLowerCase (extname (basename filePath));
          filename = toLowerCase (basename filePath)
      in if list_ex (includesStr filename) [''readme'', ''changelog'', ''license'', ''todo'', ''notes'']
         then ''docs''
         else case find (\<lambda>(ty, extensions).
                  ext \<in> set extensions \<or> (ext = [] \<and> (CHR ''.'' # filename) \<in> set extensions))
                typeTable of
                Some (ty, extensions) \<Rightarrow> ty
              | None \<Rightarrow> ''unknown'')"

definition defaultSkipDirs :: "string list" where
  "defaultSkipDirs =
     [''node_modules'', ''.git'', ''.svn'', ''.hg'', ''target'', ''build'', ''dist'',
      ''bin'', ''obj'', ''.vscode'', ''.idea'', ''__pycache__'', ''.gradle'',
      ''vendor'', ''coverage'', ''.nyc_output'', ''logs'', ''.next'', ''out'',
      ''tmp'', ''temp'', ''.cache'', ''.pytest_cache'', ''.mypy_cache'']"

text \<open>
  \<open>scanDirectory\<close> is the inner function of \<open>getAllFiles\<close>; \<open>dirPath\<close> is the walk root.
  A directory that cannot be read contributes no entry and the walk goes on.
\<close>

function scanDirectory ::
  "world \<Rightarrow> int \<Rightarrow> string list \<Rightarrow> string list \<Rightarrow> fpath \<Rightarrow> fpath \<Rightarrow> nat \<Rightarrow> fileEntry list" where
  "scanDirectory w maxDepthArg extensions skipDirsSet dirPath currentPath currentDepth =
     (if int currentDepth \<ge> maxDepthArg then []
      else case readdir w currentPath of
        None \<Rightarrow> []
      | Some entries \<Rightarrow>
          concat (map (\<lambda>entry.
            (case entry of
              DirEnt nm \<Rightarrow>
                if startsWith nm ''.'' \<and> nm \<noteq> ''.'' then []
                else if toLowerCase nm \<in> set skipDirsSet then []
                else scanDirectory w maxDepthArg extensions skipDirsSet dirPath
                       (currentPath @ [nm]) (Suc currentDepth)
            | FileEnt nm \<Rightarrow>
                if extensions = [] \<or> toLowerCase (extname nm) \<in> set extensions
                then [\<lparr>path = currentPath @ [nm],
                       name = nm,
                       extension = toLowerCase (extname nm),
                       relativePath = drop (length dirPath) (currentPath @ [nm]),
                       directory = currentPath,
                       fileType = getFileType (currentPath @ [nm])\<rparr>]
                else []
            | OtherEnt nm \<Rightarrow> [])) entries))"
  by pat_completeness auto
termination
  by (relation "measure (\<lambda>(w, maxDepthArg, extensions, skipDirsSet, dirPath, currentPath,
        currentDepth). nat (maxDepthArg - int currentDepth))") auto

declare scanDirectory.simps [simp del]

record walkOptions =
  maxDepthOpt :: "int option"
  extensionsOpt :: "string list option"
  skipDirsOpt :: "string list option"

datatype searchError = SecurityViolation | TypeError

definition orDefault :: "'a option \<Rightarrow> 'a \<Rightarrow> 'a" where
  "orDefault v d = (case v of None \<Rightarrow> d | Some x \<Rightarrow> x)"

definition getAllFiles :: "engine \<Rightarrow> world \<Rightarrow> fpath \<Rightarrow> walkOptions \<Rightarrow> searchError + fileEntry list" where
  "getAllFiles eng w dirPath options =
     (if \<not> pathValid w dirPath then Inl SecurityViolation
      else Inr (scanDirectory w (orDefault (maxDepthOpt options) (maxDepth eng))
                  (orDefault (extensionsOpt options) [])
                  (defaultSkipDirs @ orDefault (skipDirsOpt options) [])
                  dirPath dirPath 0))"

text \<open>
  The number of directories between the walk root and a file: the file's relative path
  without its last segment.
\<close>

definition levelsBelowRoot :: "fileEntry \<Rightarrow> nat" where
  "levelsBelowRoot f = length (relativePath f) - 1"

section \<open>Matching inside one file\<close>

text \<open>
  \<open>Array.prototype.sort\<close> with a comparison function, as a stable insertion sort: with a
  consistent comparison function every stable sort gives the same list.
\<close>

primrec insertBy :: "('a \<Rightarrow> 'a \<Rightarrow> int) \<Rightarrow> 'a \<Rightarrow> 'a list \<Rightarrow> 'a list" where
  "insertBy cmp x [] = [x]"
| "insertBy cmp x (y # ys) = (if cmp x y \<le> 0 then x # y # ys else y # insertBy cmp x ys)"

definition jsSort :: "('a \<Rightarrow> 'a \<Rightarrow> int) \<Rightarrow> 'a list \<Rightarrow> 'a list" where
  "jsSort cmp xs = foldr (insertBy cmp) xs []"

definition backslash :: string where
  "backslash = [CHR 0x5C]"

record smartPatterns =
  original :: string
  caseInsensitive :: string
  javaClass :: string
  javaMethod :: string
  javaImport :: string
  javaPackage :: string
  functionPattern :: string
  variable :: string
  heading :: string
  listItem :: string

definition createSmartPatterns :: "string \<Rightarrow> smartPatterns" where
  "createSmartPatterns query =
     \<lparr>original = query,
      caseInsensitive = toLowerCase query,
      javaClass = (if includesStr query ''class'' then query else ''class.*'' @ query),
      javaMethod = (if includesStr query ''('' then query
                    else query @ backslash @ ''s*'' @ backslash @ ''(''),
      javaImport = (if includesStr query ''import'' then query else ''import.*'' @ query),
      javaPackage = (if includesStr query ''package'' then query else ''package.*'' @ query),
      functionPattern = (if includesStr query ''function'' then query
                         else ''function'' @ backslash @ ''s+'' @ query),
      variable = backslash @ ''b'' @ query @ backslash @ ''b'',
      heading = ''^#+'' @ backslash @ ''s*.*'' @ query,
      listItem = ''^'' @ backslash @ ''s*[-*]'' @ backslash @ ''s*.*'' @ query\<rparr>"

record patternInfo =
  pattern :: string
  patternType :: string
  weight :: int

definition mkPattern :: "string \<Rightarrow> string \<Rightarrow> int \<Rightarrow> patternInfo" where
  "mkPattern pat ty wt = \<lparr>pattern = pat, patternType = ty, weight = wt\<rparr>"

definition selectSearchPatterns :: "smartPatterns \<Rightarrow> string \<Rightarrow> string \<Rightarrow> patternInfo list" where
  "selectSearchPatterns patterns fileTy originalQuery =
     jsSort (\<lambda>a b. weight b - weight a)
       ((if fileTy = ''java''
         then (if includesStr originalQuery ''class''
               then [mkPattern (javaClass patterns) ''javaClass'' 10] else [])
            @ (if includesStr originalQuery ''import''
               then [mkPattern (javaImport patterns) ''javaImport'' 10] else [])
            @ (if includesStr originalQuery ''package''
               then [mkPattern (javaPackage patterns) ''javaPackage'' 10] else [])
            @ (if includesStr originalQuery ''('' \<or> includesStr originalQuery ''method''
               then [mkPattern (javaMethod patterns) ''javaMethod'' 9] else [])
         else [])
        @ (if fileTy = ''docs''
           then [mkPattern (heading patterns) ''heading'' 8,
                 mkPattern (listItem patterns) ''listItem'' 7]
           else [])
        @ (if fileTy \<in> set [''javascript'', ''python'', ''cpp'', ''csharp'']
           then [mkPattern (functionPattern patterns) ''function'' 8]
           else [])
        @ [mkPattern (variable patterns) ''variable'' 6,
           mkPattern (caseInsensitive patterns) ''caseInsensitive'' 5,
           mkPattern (original patterns) ''exact'' 10])"

record searchMatch =
  line :: nat
  column :: nat
  matchText :: string
  contextText :: string
  matchType :: string
  relevanceScore :: int
  patternUsed :: string

fun splitOn :: "char \<Rightarrow> string \<Rightarrow> string list" where
  "splitOn d [] = [[]]"
| "splitOn d (c # cs) =
     (if c = d then [] # splitOn d cs
      else (case splitOn d cs of [] \<Rightarrow> [[c]] | x # xs \<Rightarrow> (c # x) # xs))"

fun joinWith :: "string \<Rightarrow> string list \<Rightarrow> string" where
  "joinWith d [] = []"
| "joinWith d [x] = x"
| "joinWith d (x # y # ys) = x @ d @ joinWith d (y # ys)"

definition newline :: char where
  "newline = CHR 0x0A"

definition slice :: "'a list \<Rightarrow> nat \<Rightarrow> nat \<Rightarrow> 'a list" where
  "slice xs a b = take (b - a) (drop a xs)"

text \<open>
  The result record built for a match at \<open>index\<close> with text \<open>txt\<close>; both branches of
  \<open>findMatches\<close> build it the same way.  Line numbers count from one; the context is the
  window of \<open>contextLines\<close> lines on each side, cut at the ends of the file.
\<close>

definition mkMatch :: "string \<Rightarrow> string list \<Rightarrow> patternInfo \<Rightarrow> nat \<Rightarrow> nat \<Rightarrow> string \<Rightarrow> searchMatch" where
  "mkMatch content lines patInfo contextLines index txt =
     (let beforeMatch = take index content;
          lineNumber = length (splitOn newline beforeMatch);
          startLine = lineNumber - contextLines - 1;
          endLine = min (length lines - 1) (lineNumber + contextLines - 1)
      in \<lparr>line = lineNumber,
          column = Suc (length (takeWhile (\<lambda>c. c \<noteq> newline) (rev beforeMatch))),
          matchText = txt,
          contextText = joinWith [newline] (slice lines startLine (endLine + 1)),
          matchType = patternType patInfo,
          relevanceScore = weight patInfo,
          patternUsed = pattern patInfo\<rparr>)"

text \<open>
  \<open>indexOfFrom s p i\<close> is \<open>s.indexOf(p, i)\<close>, with \<open>None\<close> for \<open>-1\<close>.
\<close>

function indexOfFrom :: "string \<Rightarrow> string \<Rightarrow> nat \<Rightarrow> nat option" where
  "indexOfFrom s p i =
     (if p = [] then Some (min i (length s))
      else if length s < i + length p then None
      else if startsWith (drop i s) p then Some i
      else indexOfFrom s p (Suc i))"
  by pat_completeness auto
termination
proof (relation "measure (\<lambda>(s, p, i). length s - i)")
  show "wf (measure (\<lambda>(s, p, i). length s - i))"
    by simp
next
  fix s p :: string and i :: nat
  assume "p \<noteq> []" and "\<not> length s < i + length p"
  then have "0 < length p" and "i + length p \<le> length s"
    by simp_all
  then have "i < length s"
    by linarith
  then show "((s, p, Suc i), (s, p, i)) \<in> measure (\<lambda>(s, p, i). length s - i)"
    by simp
qed

declare indexOfFrom.simps [simp del]

lemma indexOfFrom_bounds:
  "indexOfFrom s p i = Some k \<Longrightarrow> p \<noteq> [] \<Longrightarrow> i \<le> k \<and> k < length s"
proof (induction s p i rule: indexOfFrom.induct)
  case (1 s p i)
  from "1.prems" have unf:
    "(if length s < i + length p then None
      else if startsWith (drop i s) p then Some i
      else indexOfFrom s p (Suc i)) = Some k"
    by (subst (asm) indexOfFrom.simps) simp
  show ?case
  proof (cases "length s < i + length p")
    case True
    with unf show ?thesis by simp
  next
    case False
    note inRange = this
    show ?thesis
    proof (cases "startsWith (drop i s) p")
      case True
      with unf inRange have "k = i" by simp
      moreover from inRange "1.prems"(2) have "i < length s" by (cases p) auto
      ultimately show ?thesis by simp
    next
      case False
      with unf inRange have "indexOfFrom s p (Suc i) = Some k" by simp
      with "1.IH" "1.prems"(2) inRange False show ?thesis by fastforce
    qed
  qed
qed

text \<open>
  The loop of the fallback branch: the indices found by repeated \<open>indexOf\<close>, each search
  starting one past the last hit.  The branch is entered only with a pattern that
  \<open>RegExp\<close> rejected, hence a non-empty one; on the empty pattern the loop of the source
  would not end, and the model stops it.
\<close>

function literalLoop :: "string \<Rightarrow> string \<Rightarrow> nat option \<Rightarrow> nat list" where
  "literalLoop searchText searchPattern None = []"
| "literalLoop searchText searchPattern (Some index) =
     (if searchPattern = [] then []
      else index # literalLoop searchText searchPattern
                     (indexOfFrom searchText searchPattern (Suc index)))"
  by pat_completeness auto
termination
proof (relation "measure (\<lambda>(s, p, idx). case idx of None \<Rightarrow> 0 | Some i \<Rightarrow> Suc (Suc (length s) - i))")
  show "wf (measure (\<lambda>(s, p, idx). case idx of None \<Rightarrow> 0 | Some i \<Rightarrow> Suc (Suc (length s) - i)))"
    by simp
next
  fix searchText searchPattern :: string and index :: nat
  assume nonempty: "searchPattern \<noteq> []"
  show "((searchText, searchPattern, indexOfFrom searchText searchPattern (Suc index)),
         (searchText, searchPattern, Some index))
        \<in> measure (\<lambda>(s, p, idx). case idx of None \<Rightarrow> 0 | Some i \<Rightarrow> Suc (Suc (length s) - i))"
  proof (cases "indexOfFrom searchText searchPattern (Suc index)")
    case None
    then show ?thesis by simp
  next
    case (Some k)
    from indexOfFrom_bounds [OF Some nonempty] have "Suc index \<le> k" "k < length searchText"
      by simp_all
    with Some show ?thesis by simp
  qed
qed

declare literalLoop.simps [simp del]

text \<open>
  \<open>new RegExp(pattern, flags)\<close>: the empty pattern always compiles, to the expression
  that matches the empty string; any other pattern is left to the world.
\<close>

definition regExp :: "world \<Rightarrow> string \<Rightarrow> rx option" where
  "regExp w pat = (if pat = [] then Some Eps else compile w pat)"

definition findMatches ::
  "world \<Rightarrow> string \<Rightarrow> string list \<Rightarrow> patternInfo \<Rightarrow> bool \<Rightarrow> nat \<Rightarrow> searchMatch list" where
  "findMatches w content lines patInfo caseSensitive contextLines =
     (case regExp w (pattern patInfo) of
        Some regex \<Rightarrow>
          map (\<lambda>(index, txt). mkMatch content lines patInfo contextLines index txt)
            (rxMatchAll regex (\<not> caseSensitive) None content 0)
      | None \<Rightarrow>
          (let searchText = (if caseSensitive then content else toLowerCase content);
               searchPattern = (if caseSensitive then pattern patInfo
                                else toLowerCase (pattern patInfo))
           in map (\<lambda>index. mkMatch content lines patInfo contextLines index
                              (take (length searchPattern) (drop index content)))
                (literalLoop searchText searchPattern (indexOfFrom searchText searchPattern 0))))"

text \<open>
  A literal substring search, said directly: every index at which the pattern occurs in
  the text, in increasing order.  \<open>foldCase\<close> is the case folding both branches of the
  fallback apply to the text and to the pattern.
\<close>

definition occurrences :: "string \<Rightarrow> string \<Rightarrow> nat list" where
  "occurrences s p = filter (\<lambda>i. startsWith (drop i s) p) [0..<length s]"

definition foldCase :: "bool \<Rightarrow> string \<Rightarrow> string" where
  "foldCase caseSensitive s = (if caseSensitive then s else toLowerCase s)"

text \<open>
  \<open>deduplicateAndScore\<close> keeps one result per line in a \<open>Map\<close>, whose entries stay in the
  order of first insertion, and sorts by score, then line.
\<close>

fun mapSet :: "'k \<Rightarrow> 'v \<Rightarrow> ('k \<times> 'v) list \<Rightarrow> ('k \<times> 'v) list" where
  "mapSet k v [] = [(k, v)]"
| "mapSet k v ((k', v') # m) = (if k = k' then (k, v) # m else (k', v') # mapSet k v m)"

definition uniqueByLine :: "searchMatch list \<Rightarrow> (nat \<times> searchMatch) list" where
  "uniqueByLine results =
     foldl (\<lambda>m result.
              case map_of m (line result) of
                None \<Rightarrow> mapSet (line result) result m
              | Some existing \<Rightarrow>
                  if relevanceScore existing < relevanceScore result
                  then mapSet (line result) result m else m)
       [] results"

definition deduplicateAndScore :: "searchMatch list \<Rightarrow> searchMatch list" where
  "deduplicateAndScore results =
     jsSort (\<lambda>a b. if relevanceScore a \<noteq> relevanceScore b
                    then relevanceScore b - relevanceScore a
                    else int (line a) - int (line b))
       (map snd (uniqueByLine results))"

fun patternLoop ::
  "world \<Rightarrow> string \<Rightarrow> string list \<Rightarrow> bool \<Rightarrow> nat \<Rightarrow> nat \<Rightarrow> searchMatch list \<Rightarrow> patternInfo list
     \<Rightarrow> searchMatch list" where
  "patternLoop w content lines caseSensitive contextLines maxMatches results [] = results"
| "patternLoop w content lines caseSensitive contextLines maxMatches results (patInfo # rest) =
     (if length results \<ge> maxMatches then results
      else patternLoop w content lines caseSensitive contextLines maxMatches
             (results @ findMatches w content lines patInfo caseSensitive contextLines) rest)"

text \<open>
  \<open>smartSearchInFile\<close> returns its matches and the new value of the counter
  \<open>processedFiles\<close>; every failure (a rejected path, a failing \<open>stat\<close> or read, a file
  over the size limit) gives no match.
\<close>

definition smartSearchInFile ::
  "engine \<Rightarrow> world \<Rightarrow> fpath \<Rightarrow> string \<Rightarrow> bool \<Rightarrow> nat \<Rightarrow> nat \<Rightarrow> nat \<Rightarrow> searchMatch list \<times> nat" where
  "smartSearchInFile eng w filePath query caseSensitive maxMatches contextLines processedFiles =
     (if \<not> pathValid w filePath then ([], processedFiles)
      else case statSize w filePath of
        None \<Rightarrow> ([], processedFiles)
      | Some sz \<Rightarrow>
          if sz > maxFileSize eng then ([], processedFiles)
          else (case readFile w filePath of
                  None \<Rightarrow> ([], processedFiles)
                | Some content \<Rightarrow>
                    (take maxMatches
                       (deduplicateAndScore
                          (patternLoop w content (splitOn newline content) caseSensitive
                             contextLines maxMatches []
                             (selectSearchPatterns (createSmartPatterns query)
                                (getFileType filePath) query))),
                     Suc processedFiles)))"

section \<open>Searching a set of roots (\<open>SmartSearchEngine.smartSearch\<close>)\<close>

record searchOptions =
  fileTypes :: "string list option"
  maxResultsOpt :: "nat option"
  maxFilesOpt :: "nat option"
  caseSensitiveOpt :: "bool option"
  contextLinesOpt :: "nat option"
  excludePatterns :: "(rx \<times> bool) list option"

definition binaryExtensions :: "string list" where
  "binaryExtensions =
     [''.exe'', ''.dll'', ''.so'', ''.dylib'', ''.bin'', ''.class'', ''.jar'', ''.war'',
      ''.zip'', ''.tar'', ''.gz'', ''.rar'', ''.7z'', ''.pdf'', ''.doc'', ''.docx'',
      ''.xls'', ''.xlsx'', ''.ppt'', ''.pptx'', ''.png'', ''.jpg'', ''.jpeg'', ''.gif'',
      ''.bmp'', ''.svg'', ''.ico'', ''.mp3'', ''.mp4'', ''.avi'', ''.mov'', ''.wmv'']"

definition fileTypeMapping :: "(string \<times> string list) list" where
  "fileTypeMapping =
     [(''java'', [''java'']), (''javascript'', [''javascript'']), (''python'', [''python'']),
      (''cpp'', [''cpp'']), (''web'', [''web'']), (''docs'', [''docs'']),
      (''config'', [''config'', ''build'']),
      (''code'', [''java'', ''javascript'', ''python'', ''cpp'', ''csharp'', ''web'', ''sql'',
         ''shell''])]"

text \<open>
  The mapping is an object literal, so a lookup \<open>typeMapping[type]\<close> finds the eight keys
  written in it and also the properties every object inherits from \<open>Object.prototype\<close>.
  What is found under an inherited name is a function (for \<open>__proto__\<close>, the prototype
  object): it passes the test \<open>if (typeMapping[type])\<close> and has no \<open>forEach\<close>, so the
  call \<open>typeMapping[type].forEach\<close> throws a \<open>TypeError\<close>.
\<close>

definition inheritedKeys :: "string list" where
  "inheritedKeys =
     [''constructor'', ''__defineGetter__'', ''__defineSetter__'', ''hasOwnProperty'',
      ''__lookupGetter__'', ''__lookupSetter__'', ''isPrototypeOf'', ''propertyIsEnumerable'',
      ''toString'', ''valueOf'', ''__proto__'', ''toLocaleString'']"

datatype typeEntry = Own "string list" | Inherited | Missing

definition typeLookup :: "string \<Rightarrow> typeEntry" where
  "typeLookup ty =
     (case map_of fileTypeMapping ty of
        Some ts \<Rightarrow> Own ts
      | None \<Rightarrow> if ty \<in> set inheritedKeys then Inherited else Missing)"

text \<open>
  The loop that fills the set \<open>allowedTypes\<close>.  For a type that is not in the mapping,
  \<open>filterFilesByType\<close> adds the type itself (\<open>keep\<close>) and \<open>shouldProcessFile\<close> adds
  nothing.
\<close>

fun allowedTypes :: "bool \<Rightarrow> string list \<Rightarrow> string list \<Rightarrow> searchError + string list" where
  "allowedTypes keep [] allowed = Inr allowed"
| "allowedTypes keep (ty # rest) allowed =
     (case typeLookup ty of
        Own ts \<Rightarrow> allowedTypes keep rest (allowed @ ts)
      | Inherited \<Rightarrow> Inl TypeError
      | Missing \<Rightarrow> allowedTypes keep rest (if keep then allowed @ [ty] else allowed))"

definition shouldProcessFile ::
  "engine \<Rightarrow> fpath \<Rightarrow> nat \<Rightarrow> string list \<Rightarrow> (rx \<times> bool) list \<Rightarrow> searchError + bool" where
  "shouldProcessFile eng filePath sz fileTys excl =
     (if sz > maxFileSize eng then Inr False
      else if toLowerCase (extname (basename filePath)) \<in> set binaryExtensions then Inr False
      else if ''all'' \<notin> set fileTys
      then (case allowedTypes False fileTys [] of
              Inl failure \<Rightarrow> Inl failure
            | Inr allowed \<Rightarrow>
                if getFileType filePath \<notin> set allowed then Inr False
                else Inr (\<not> list_ex (\<lambda>(r, ci). rxTest r ci (pathString filePath)) excl))
      else Inr (\<not> list_ex (\<lambda>(r, ci). rxTest r ci (pathString filePath)) excl))"

definition filterFilesByType :: "fileEntry list \<Rightarrow> string list \<Rightarrow> searchError + fileEntry list" where
  "filterFilesByType files fileTys =
     (if ''all'' \<in> set fileTys then Inr files
      else (case allowedTypes True fileTys [] of
              Inl failure \<Rightarrow> Inl failure
            | Inr allowed \<Rightarrow> Inr (filter (\<lambda>file. fileType file \<in> set allowed) files)))"

text \<open>
  \<open>typesSafe fileTypes\<close> says that the list holds \<open>all\<close> or no inherited name, so that
  neither loop throws.
\<close>

definition typesSafe :: "string list \<Rightarrow> bool" where
  "typesSafe fileTys =
     (''all'' \<in> set fileTys \<or> list_all (\<lambda>ty. typeLookup ty \<noteq> Inherited) fileTys)"

text \<open>
  \<open>processFilesInBatches\<close>.  The search function takes and returns the state it works on
  (in \<open>smartSearch\<close>, the counter \<open>processedFiles\<close>); \<open>None\<close> stands for a rejected
  promise, which counts as no match.  The batch size is not zero: the constructor puts
  500 in its place; with a zero step the splitting loop of the source would not end, and
  the model stops it.  The argument \<open>options\<close> is accepted and not read, as in the source.
\<close>

function splitFrom :: "nat \<Rightarrow> 'a list \<Rightarrow> nat \<Rightarrow> 'a list list" where
  "splitFrom n files i =
     (if i < length files \<and> 0 < n then slice files i (i + n) # splitFrom n files (i + n)
      else [])"
  by pat_completeness auto
termination
  by (relation "measure (\<lambda>(n, files, i). length files - i)") auto

declare splitFrom.simps [simp del]

fun runBatch :: "('f \<Rightarrow> 's \<Rightarrow> 'r list option \<times> 's) \<Rightarrow> 'f list \<Rightarrow> 's \<Rightarrow> 'r list \<times> 's" where
  "runBatch searchFunction [] st = ([], st)"
| "runBatch searchFunction (file # rest) st =
     (case searchFunction file st of
        (found, st1) \<Rightarrow>
          (case runBatch searchFunction rest st1 of
             (others, st2) \<Rightarrow> (orDefault found [] @ others, st2)))"

fun batchLoop ::
  "('f \<Rightarrow> 's \<Rightarrow> 'r list option \<times> 's) \<Rightarrow> nat \<Rightarrow> 'r list \<Rightarrow> 'f list list \<Rightarrow> 's \<Rightarrow> 'r list \<times> 's" where
  "batchLoop searchFunction limit results [] st = (results, st)"
| "batchLoop searchFunction limit results (batch # rest) st =
     (case runBatch searchFunction batch st of
        (batchResults, st') \<Rightarrow>
          if length (results @ batchResults) \<ge> limit then (results @ batchResults, st')
          else batchLoop searchFunction limit (results @ batchResults) rest st')"

definition processFilesInBatches ::
  "engine \<Rightarrow> 'f list \<Rightarrow> ('f \<Rightarrow> 's \<Rightarrow> 'r list option \<times> 's) \<Rightarrow> searchOptions \<Rightarrow> 's \<Rightarrow> 'r list \<times> 's" where
  "processFilesInBatches eng files searchFunction options st =
     batchLoop searchFunction (maxResults eng) [] (splitFrom (batchSize eng) files 0) st"

text \<open>
  To say which files a run of \<open>processFilesInBatches\<close> visits, \<open>logSearch g\<close> is the
  search function that answers \<open>g x\<close> on the file \<open>x\<close> and appends \<open>x\<close> to the state, the
  list of the files visited so far; \<open>found g x\<close> is what the file contributes.
\<close>

definition found :: "('f \<Rightarrow> 'r list option) \<Rightarrow> 'f \<Rightarrow> 'r list" where
  "found g x = orDefault (g x) []"

definition logSearch :: "('f \<Rightarrow> 'r list option) \<Rightarrow> 'f \<Rightarrow> 'f list \<Rightarrow> 'r list option \<times> 'f list" where
  "logSearch g x visited = (g x, visited @ [x])"

record searchResult = searchMatch +
  resultFile :: fpath
  fullPath :: fpath
  fileName :: string
  resultFileType :: string
  resultExtension :: string

definition withFile :: "fileEntry \<Rightarrow> searchMatch \<Rightarrow> searchResult" where
  "withFile f r =
     searchMatch.extend r
       (searchResult.fields (relativePath f) (path f) (name f) (fileType f) (extension f))"

text \<open>
  \<open>String.prototype.localeCompare\<close> orders strings by their collation keys; the key
  function \<open>collate\<close> of the locale is a parameter.
\<close>

definition localeCompare :: "('p \<Rightarrow> 'k::linorder) \<Rightarrow> 'p \<Rightarrow> 'p \<Rightarrow> int" where
  "localeCompare collate a b =
     (if collate a < collate b then - 1 else if collate a = collate b then 0 else 1)"

definition compareResults :: "(fpath \<Rightarrow> 'k::linorder) \<Rightarrow> searchResult \<Rightarrow> searchResult \<Rightarrow> int" where
  "compareResults collate a b =
     (if relevanceScore a \<noteq> relevanceScore b then relevanceScore b - relevanceScore a
      else localeCompare collate (resultFile a) (resultFile b))"

definition collectFiles ::
  "engine \<Rightarrow> world \<Rightarrow> fpath list \<Rightarrow> string list \<Rightarrow> (rx \<times> bool) list \<Rightarrow> fileEntry list" where
  "collectFiles eng w paths fileTys excl =
     concat (map (\<lambda>searchPath.
       case getAllFiles eng w searchPath
              \<lparr>maxDepthOpt = Some (maxDepth eng), extensionsOpt = None, skipDirsOpt = None\<rparr> of
         Inl err \<Rightarrow> []
       | Inr pathFiles \<Rightarrow>
           filter (\<lambda>f. case statSize w (path f) of
                          None \<Rightarrow> False
                        | Some sz \<Rightarrow>
                            (case shouldProcessFile eng (path f) sz fileTys excl of
                               Inl failure \<Rightarrow> False
                             | Inr keep \<Rightarrow> keep))
             pathFiles) paths)"

definition searchFunction ::
  "engine \<Rightarrow> world \<Rightarrow> string \<Rightarrow> bool \<Rightarrow> nat \<Rightarrow> fileEntry \<Rightarrow> nat \<Rightarrow> searchResult list option \<times> nat" where
  "searchFunction eng w query caseSensitive contextLines f processedFiles =
     (case smartSearchInFile eng w (path f) query caseSensitive 3 contextLines processedFiles of
        (results, processedFiles') \<Rightarrow> (Some (map (withFile f) results), processedFiles'))"

text \<open>
  \<open>smartSearch\<close> returns the field \<open>results\<close> of the source's answer and the counter
  \<open>processedFiles\<close> of its summary.  The walk of a root, \<open>stat\<close> and \<open>shouldProcessFile\<close>
  run inside \<open>try\<close> blocks: a root that fails is left out, and so is a file.  The call of
  \<open>filterFilesByType\<close> is in no \<open>try\<close> block, so its \<open>TypeError\<close> leaves \<open>smartSearch\<close>.
\<close>

definition smartSearch ::
  "engine \<Rightarrow> world \<Rightarrow> (fpath \<Rightarrow> 'k::linorder) \<Rightarrow> string \<Rightarrow> fpath list \<Rightarrow> searchOptions
     \<Rightarrow> searchError + searchResult list \<times> nat" where
  "smartSearch eng w collate query searchPaths options =
     (let fileTys = orDefault (fileTypes options) [''all''];
          maxRes = orDefault (maxResultsOpt options) (maxResults eng);
          maxFiles = orDefault (maxFilesOpt options) (maxFilesToProcess eng);
          caseSensitive = orDefault (caseSensitiveOpt options) False;
          contextLines = orDefault (contextLinesOpt options) 3;
          excl = orDefault (excludePatterns options) [];
          allFiles = collectFiles eng w searchPaths fileTys excl
      in case filterFilesByType allFiles fileTys of
           Inl failure \<Rightarrow> Inl failure
         | Inr filteredFiles \<Rightarrow>
             if filteredFiles = [] then Inr ([], 0)
             else (case processFilesInBatches eng (take maxFiles allFiles)
                          (searchFunction eng w query caseSensitive contextLines) options 0 of
                     (allResults, processedFiles) \<Rightarrow>
                       Inr (take maxRes (take maxRes (jsSort (compareResults collate) allResults)),
                            processedFiles)))"

text \<open>
  The key of a result for deduplication, the order the results are returned in (score
  descending, then the collation key of the file ascending), and the results one file
  contributes to a search.
\<close>

definition fileLine :: "searchResult \<Rightarrow> fpath \<times> nat" where
  "fileLine r = (resultFile r, line r)"

definition ranked :: "(fpath \<Rightarrow> 'k::linorder) \<Rightarrow> searchResult \<Rightarrow> searchResult \<Rightarrow> bool" where
  "ranked collate a b =
     (relevanceScore a > relevanceScore b \<or>
      (relevanceScore a = relevanceScore b \<and> collate (resultFile a) \<le> collate (resultFile b)))"

definition fileResults :: "engine \<Rightarrow> world \<Rightarrow> string \<Rightarrow> bool \<Rightarrow> nat \<Rightarrow> fileEntry \<Rightarrow> searchResult list" where
  "fileResults eng w query caseSensitive contextLines f =
     map (withFile f) (fst (smartSearchInFile eng w (path f) query caseSensitive 3 contextLines 0))"

section \<open>Log normalization (\<open>SmartSearchEngine.normalizeLogText\<close>)\<close>

text \<open>The regular expressions of the moderate level, in the order of the source.\<close>

definition rxHex :: rx where "rxHex = Cls False hexChars"

definition uuidRx :: rx where
  "uuidRx = rxSeqs [rxTimes 8 rxHex, rxChr (CHR ''-''), rxTimes 4 rxHex, rxChr (CHR ''-''),
     rxTimes 4 rxHex, rxChr (CHR ''-''), rxTimes 4 rxHex, rxChr (CHR ''-''), rxTimes 12 rxHex]"

definition hexRx :: rx where
  "hexRx = Seq (rxLit ''0x'') (rxPlus rxHex)"

definition ipRx :: rx where
  "ipRx = rxSeqs [Bnd, rxTimes 3 (Seq (rxBetween 1 3 rxDigit) (rxChr (CHR ''.''))),
     rxBetween 1 3 rxDigit, Bnd]"

definition emailRx :: rx where
  "emailRx = rxSeqs [rxPlus (Cls False (lowerChars @ upperChars @ digitChars @ ''._%+-'')),
     rxChr (CHR ''@''), rxPlus (Cls False (lowerChars @ upperChars @ digitChars @ ''.-'')),
     rxChr (CHR ''.''), rxAtLeast 2 (Cls False (lowerChars @ upperChars))]"

definition unixPathRx :: rx where
  "unixPathRx = Seq (rxPlus (Seq (rxChr (CHR ''/'')) (rxPlus (Cls False (wordChars @ ''.-'')))))
     (rxOpt (Seq (rxChr (CHR ''.'')) (rxPlus rxWord)))"

definition winPathRx :: rx where
  "winPathRx = Seq (rxPlus (rxSeqs [Cls False upperChars, rxChr (CHR '':''), rxChr (CHR 0x5C),
       rxPlus (Cls False (wordChars @ [CHR 0x5C] @ ''.-''))]))
     (rxOpt (Seq (rxChr (CHR ''.'')) (rxPlus rxWord)))"

definition isoTimestampRx :: rx where
  "isoTimestampRx = rxSeqs [rxTimes 4 rxDigit, rxChr (CHR ''-''), rxTimes 2 rxDigit,
     rxChr (CHR ''-''), rxTimes 2 rxDigit, Cls False ''T '', rxTimes 2 rxDigit, rxChr (CHR '':''),
     rxTimes 2 rxDigit, rxChr (CHR '':''), rxTimes 2 rxDigit,
     rxOpt (Seq (rxChr (CHR ''.'')) (rxPlus rxDigit)),
     rxOpt (Alt (rxChr (CHR ''Z''))
       (rxSeqs [Cls False ''+-'', rxTimes 2 rxDigit, rxChr (CHR '':''), rxTimes 2 rxDigit]))]"

definition usTimestampRx :: rx where
  "usTimestampRx = rxSeqs [rxTimes 2 rxDigit, rxChr (CHR ''/''), rxTimes 2 rxDigit,
     rxChr (CHR ''/''), rxTimes 4 rxDigit, rxPlus rxSpace, rxTimes 2 rxDigit, rxChr (CHR '':''),
     rxTimes 2 rxDigit, rxChr (CHR '':''), rxTimes 2 rxDigit]"

definition dquotedRx :: rx where
  "dquotedRx = rxSeqs [rxChr (CHR 0x22),
     Star (Alt (Cls True [CHR 0x22, CHR 0x5C]) (Seq (rxChr (CHR 0x5C)) rxDot)),
     rxChr (CHR 0x22)]"

definition squotedRx :: rx where
  "squotedRx = rxSeqs [rxChr (CHR 0x27),
     Star (Alt (Cls True [CHR 0x27, CHR 0x5C]) (Seq (rxChr (CHR 0x5C)) rxDot)),
     rxChr (CHR 0x27)]"

definition printfRx :: rx where
  "printfRx = Seq (rxChr (CHR ''%'')) (Cls False ''sdifoxX'')"

definition dollarBraceRx :: rx where
  "dollarBraceRx = rxSeqs [rxLit ''${'', rxPlus rxWord, rxChr (CHR ''}'')]"

definition numberedBraceRx :: rx where
  "numberedBraceRx = rxSeqs [rxChr (CHR ''{''), rxPlus rxDigit, rxChr (CHR ''}'')]"

definition constantBraceRx :: rx where
  "constantBraceRx = rxSeqs [rxChr (CHR ''{''), rxPlus (Cls False (upperChars @ ''_'')),
     rxChr (CHR ''}'')]"

definition floatRx :: rx where
  "floatRx = rxSeqs [Bnd, rxPlus rxDigit, rxChr (CHR ''.''), rxPlus rxDigit, Bnd]"

definition longNumberRx :: rx where
  "longNumberRx = rxSeqs [Bnd, rxAtLeast 4 rxDigit, Bnd]"

definition shortNumberRx :: rx where
  "shortNumberRx = rxSeqs [Bnd, rxBetween 1 3 rxDigit, Bnd]"

definition keptCodes :: "string list" where
  "keptCodes = [''200'', ''404'', ''500'', ''403'', ''401'', ''503'', ''400'', ''0'', ''1'', ''-1'']"

definition keepCode :: "string \<Rightarrow> captures \<Rightarrow> string" where
  "keepCode m caps = (if m \<in> set keptCodes then m else ''NUM'')"

definition camelRx :: rx where
  "camelRx = Seq (Grp 1 (Cls False lowerChars)) (Grp 2 (Cls False upperChars))"

definition group :: "captures \<Rightarrow> nat \<Rightarrow> string" where
  "group caps n = (case map_of caps n of None \<Rightarrow> [] | Some g \<Rightarrow> g)"

definition camelSplit :: "string \<Rightarrow> captures \<Rightarrow> string" where
  "camelSplit m caps = group caps 1 @ '' '' @ group caps 2"

definition spacesRx :: rx where
  "spacesRx = rxPlus rxSpace"

definition collapseSpaces :: "string \<Rightarrow> string" where
  "collapseSpaces s = trim (replaceAll spacesRx False '' '' s)"

datatype level = Light | Moderate | Heavy | OtherLevel

definition moderateSteps :: "(string \<Rightarrow> string) list" where
  "moderateSteps =
     [replaceAll uuidRx False ''UUID'',
      replaceAll hexRx False ''HEX'',
      replaceAll ipRx False ''IP'',
      replaceAll emailRx False ''EMAIL'',
      replaceAll unixPathRx False ''FILEPATH'',
      replaceAll winPathRx False ''FILEPATH'',
      replaceAll isoTimestampRx False ''TIMESTAMP'',
      replaceAll usTimestampRx False ''TIMESTAMP'',
      replaceAll dquotedRx False ''STR'',
      replaceAll squotedRx False ''STR'',
      replaceAll printfRx False ''PLACEHOLDER'',
      replaceAll dollarBraceRx False ''PLACEHOLDER'',
      replaceAll numberedBraceRx False ''PLACEHOLDER'',
      replaceAll constantBraceRx False ''PLACEHOLDER'',
      replaceAll floatRx False ''NUM'',
      replaceAll longNumberRx False ''NUM'',
      rxReplace shortNumberRx False keepCode None,
      rxReplace camelRx False camelSplit None,
      toLowerCase,
      collapseSpaces]"

definition normalizeModerate :: "string \<Rightarrow> string" where
  "normalizeModerate lg = fold (\<lambda>step text. step text) moderateSteps lg"

text \<open>
  The expression of the heavy level.  Its character class ends at the first \<open>]\<close>, after
  the backslash; what follows is a start anchor, a backquote, the bar of an alternative
  and the two characters \<open>~]\<close>.  The first alternative asks for the start of the text
  after a character, so only \<open>~]\<close> is ever replaced.
\<close>

definition punctuationRx :: rx where
  "punctuationRx =
     Alt (rxSeqs [Cls False ([CHR 0x21, CHR 0x22, CHR 0x23, CHR 0x24, CHR 0x25, CHR 0x26,
                    CHR 0x27] @ ''()*+,-/:;<=>?@['' @ [CHR 0x5C]),
                  Bol, rxChr (CHR 0x60)])
         (rxLit ''~]'')"

definition normalizeLogText :: "string \<Rightarrow> level \<Rightarrow> string" where
  "normalizeLogText lg lvl =
     (case lvl of
        Light \<Rightarrow> collapseSpaces lg
      | Moderate \<Rightarrow> normalizeModerate lg
      | Heavy \<Rightarrow> collapseSpaces (replaceAll punctuationRx False '' '' (normalizeModerate lg))
      | OtherLevel \<Rightarrow> lg)"

section \<open>The log tracer (\<open>SmartSearchEngine.traceErrorLogToSource\<close>)\<close>

text \<open>
  \<open>matchTexts\<close> is \<open>s.match(r) || []\<close> for a global \<open>r\<close>; \<open>rxReplaceFirst\<close> is \<open>replace\<close>
  with an expression that is not global; \<open>rxSplit\<close> is \<open>split\<close> with an expression
  without captures whose matches are not empty.
\<close>

definition matchTexts :: "rx \<Rightarrow> bool \<Rightarrow> string \<Rightarrow> string list" where
  "matchTexts r ci s = map snd (rxMatchAll r ci None s 0)"

definition rxReplaceFirst :: "rx \<Rightarrow> bool \<Rightarrow> string \<Rightarrow> string \<Rightarrow> string" where
  "rxReplaceFirst r ci new s =
     (case rxSearch r ci None s 0 of
        None \<Rightarrow> s
      | Some (i, st) \<Rightarrow> take i s @ new @ fst (snd st))"

fun pieces :: "string \<Rightarrow> nat \<Rightarrow> (nat \<times> string) list \<Rightarrow> string list" where
  "pieces s pos [] = [drop pos s]"
| "pieces s pos ((i, txt) # ms) = slice s pos i # pieces s (i + length txt) ms"

definition rxSplit :: "rx \<Rightarrow> bool \<Rightarrow> string \<Rightarrow> string list" where
  "rxSplit r ci s = pieces s 0 (rxMatchAll r ci None s 0)"

text \<open>The elements of a \<open>Set\<close> in the order of their first insertion.\<close>

definition addAll :: "'a list \<Rightarrow> 'a list \<Rightarrow> 'a list" where
  "addAll seen xs = foldl (\<lambda>acc x. if x \<in> set acc then acc else acc @ [x]) seen xs"

definition alnumChars :: string where
  "alnumChars = lowerChars @ upperChars @ digitChars"

definition classNameRx :: rx where
  "classNameRx = rxSeqs [Bnd, Cls False upperChars, Star (Cls False alnumChars),
     rxPlus (rxSeqs [rxChr (CHR ''.''), Cls False upperChars, Star (Cls False alnumChars)]), Bnd]"

definition methodCallRx :: rx where
  "methodCallRx = rxSeqs [Bnd, Cls False (lowerChars @ upperChars @ ''_''), Star rxWord,
     Star rxSpace, rxChr (CHR ''('')]"

definition trailingParenRx :: rx where
  "trailingParenRx = rxSeqs [Star rxSpace, rxChr (CHR ''(''), Eol]"

definition errorMessageRx :: rx where
  "errorMessageRx = rxSeqs
     [rxAlts [rxLit ''error'', rxLit ''exception'', Seq (rxLit ''faile'') (rxOpt (rxChr (CHR ''d''))),
        rxLit ''warning''],
      rxChr (CHR '':''), Star rxSpace, Grp 1 (rxPlus (Cls True (''.!?'' @ [newline])))]"

definition colonRx :: rx where
  "colonRx = Seq (rxChr (CHR '':'')) (Star rxSpace)"

definition quotedTextRx :: rx where
  "quotedTextRx = Alt
     (rxSeqs [rxChr (CHR 0x22), rxBetween 3 50 (Cls True [CHR 0x22]), rxChr (CHR 0x22)])
     (rxSeqs [rxChr (CHR 0x27), rxBetween 3 50 (Cls True [CHR 0x27]), rxChr (CHR 0x27)])"

definition quoteRx :: rx where
  "quoteRx = Cls False [CHR 0x22, CHR 0x27]"

definition stackFrameRx :: rx where
  "stackFrameRx = rxSeqs [rxLit ''at'', rxPlus rxSpace, rxPlus (Cls False (wordChars @ ''.'')),
     rxOpt (rxSeqs [rxChr (CHR ''(''), Star (Cls True '')''), rxChr (CHR '')'')])]"

definition leadingAtRx :: rx where
  "leadingAtRx = rxSeqs [Bol, rxLit ''at'', rxPlus rxSpace]"

definition fileNameRx :: rx where
  "fileNameRx = rxSeqs [Bnd, rxPlus (Cls False (wordChars @ ''-'')), rxChr (CHR ''.''),
     rxBetween 2 4 rxWord, Bnd]"

definition errorMessages :: "string \<Rightarrow> string list" where
  "errorMessages lg =
     concat (map (\<lambda>ep. case rxSplit colonRx False ep of
                          a # message # rest \<Rightarrow> (if message = [] then [] else [trim message])
                        | _ \<Rightarrow> [])
               (matchTexts errorMessageRx True lg))"

definition extractKeyPhrases :: "string \<Rightarrow> string list" where
  "extractKeyPhrases lg =
     addAll []
       (matchTexts classNameRx False lg
        @ map (rxReplaceFirst trailingParenRx False []) (matchTexts methodCallRx False lg)
        @ errorMessages lg
        @ map (replaceAll quoteRx False []) (matchTexts quotedTextRx False lg)
        @ map (rxReplaceFirst leadingAtRx False []) (matchTexts stackFrameRx False lg)
        @ matchTexts fileNameRx False lg)"

definition wordEndingRx :: "string \<Rightarrow> rx" where
  "wordEndingRx suffix = rxSeqs [Bnd, Star rxWord, rxLit suffix, Bnd]"

definition wordContainingRx :: "string \<Rightarrow> rx" where
  "wordContainingRx part = rxSeqs [Bnd, Star rxWord, rxLit part, Star rxWord, Bnd]"

definition exceptionPatterns :: "rx list" where
  "exceptionPatterns =
     [wordEndingRx ''Exception'', wordEndingRx ''Error'', wordEndingRx ''Fault'',
      wordEndingRx ''Failure'', wordEndingRx ''Timeout'', wordContainingRx ''Invalid'',
      wordContainingRx ''NotFound'', wordEndingRx ''Denied'', wordEndingRx ''Unauthorized'']"

definition httpCodeRx :: rx where
  "httpCodeRx = rxSeqs [Bnd,
     Grp 1 (Alt (Seq (rxChr (CHR ''4'')) (rxTimes 2 rxDigit))
               (Seq (rxChr (CHR ''5'')) (rxTimes 2 rxDigit))),
     rxPlus rxSpace, rxPlus rxWord]"

definition extractErrorTypes :: "string \<Rightarrow> string list" where
  "extractErrorTypes lg =
     addAll []
       (concat (map (\<lambda>r. matchTexts r False lg) exceptionPatterns)
        @ matchTexts httpCodeRx False lg)"

record tracedResult = searchResult +
  searchContext :: string

definition endsWith :: "string \<Rightarrow> string \<Rightarrow> bool" where
  "endsWith s suffix = startsWith (rev s) (rev suffix)"

definition calculateRelevance :: "string \<Rightarrow> tracedResult \<Rightarrow> string \<Rightarrow> int" where
  "calculateRelevance query result originalLog =
     (let logLower = toLowerCase originalLog;
          fileText = relativeString (resultFile result)
      in (if contextText result \<noteq> [] \<and>
             includesStr (toLowerCase (contextText result)) (toLowerCase query) then 10 else 0)
       + (if includesStr logLower ''java'' \<and> endsWith fileText ''.java'' then 5 else 0)
       + (if includesStr logLower ''javascript'' \<and> endsWith fileText ''.js'' then 5 else 0)
       + (if includesStr logLower ''python'' \<and> endsWith fileText ''.py'' then 5 else 0)
       + (if includesStr (toLowerCase fileText) ''error'' \<or>
             includesStr (toLowerCase fileText) ''exception'' then 3 else 0)
       + (if searchContext result = ''key_phrase'' then 8 else 0)
       + (if searchContext result = ''light_normalized'' then 5 else 0)
       + (if searchContext result = ''error_type'' then 4 else 0))"

definition traceFileTypes :: "string list" where
  "traceFileTypes = [''java'', ''javascript'', ''python'', ''cpp'', ''csharp'', ''web'', ''config'',
     ''build'', ''docs'', ''sql'', ''shell'']"

definition traceOptions :: "searchOptions \<Rightarrow> searchOptions" where
  "traceOptions options =
     options\<lparr>fileTypes := Some (orDefault (fileTypes options) traceFileTypes),
             maxResultsOpt := Some 3\<rparr>"

definition tagResult :: "string \<Rightarrow> string \<Rightarrow> string \<Rightarrow> searchResult \<Rightarrow> tracedResult" where
  "tagResult query lg ctx r =
     (let tagged = searchResult.extend r (tracedResult.fields ctx)
      in tagged\<lparr>relevanceScore := calculateRelevance query tagged lg\<rparr>)"

text \<open>
  \<open>trySearch\<close> is the helper of the tracer; the set \<open>searchedQueries\<close> is passed in and
  returned.  \<open>None\<close> is the source's \<open>null\<close>.  The tracer has no \<open>try\<close> block: an error of
  \<open>smartSearch\<close> leaves \<open>trySearch\<close>, the loop that called it and the tracer.
\<close>

definition trySearch ::
  "engine \<Rightarrow> world \<Rightarrow> (fpath \<Rightarrow> 'k::linorder) \<Rightarrow> string \<Rightarrow> fpath list \<Rightarrow> searchOptions
     \<Rightarrow> string \<Rightarrow> string \<Rightarrow> string list
     \<Rightarrow> searchError + tracedResult list option \<times> string list" where
  "trySearch eng w collate lg searchPaths options ctx query searchedQueries =
     (if query \<in> set searchedQueries \<or> length query < 3 then Inr (None, searchedQueries)
      else (case smartSearch eng w collate query searchPaths (traceOptions options) of
              Inl failure \<Rightarrow> Inl failure
            | Inr (matches, processed) \<Rightarrow>
                (case matches of
                   [] \<Rightarrow> Inr (None, searchedQueries @ [query])
                 | r # rs \<Rightarrow>
                     Inr (Some (map (tagResult query lg ctx) (r # rs)),
                          searchedQueries @ [query]))))"

text \<open>
  The three loops of the tracer: each query is tried, what is found is appended, and the
  loop is left once five results are there.  In the loop over the parts of the normalized
  log only parts longer than ten characters are tried, trimmed.
\<close>

fun searchEach ::
  "(string \<Rightarrow> string list \<Rightarrow> 'e + 'r list option \<times> string list) \<Rightarrow> 'r list \<Rightarrow> string list
     \<Rightarrow> string list \<Rightarrow> 'e + 'r list \<times> string list" where
  "searchEach try results searched [] = Inr (results, searched)"
| "searchEach try results searched (phrase # rest) =
     (case try phrase searched of
        Inl failure \<Rightarrow> Inl failure
      | Inr (hits, searched') \<Rightarrow>
          if length (results @ orDefault hits []) \<ge> 5
          then Inr (results @ orDefault hits [], searched')
          else searchEach try (results @ orDefault hits []) searched' rest)"

fun searchParts ::
  "(string \<Rightarrow> string list \<Rightarrow> 'e + 'r list option \<times> string list) \<Rightarrow> 'r list \<Rightarrow> string list
     \<Rightarrow> string list \<Rightarrow> 'e + 'r list \<times> string list" where
  "searchParts try results searched [] = Inr (results, searched)"
| "searchParts try results searched (phrase # rest) =
     (if length phrase > 10
      then (case try (trim phrase) searched of
              Inl failure \<Rightarrow> Inl failure
            | Inr (hits, searched') \<Rightarrow>
                if length (results @ orDefault hits []) \<ge> 5
                then Inr (results @ orDefault hits [], searched')
                else searchParts try (results @ orDefault hits []) searched' rest)
      else searchParts try results searched rest)"

definition resultKey :: "tracedResult \<Rightarrow> fpath \<times> nat" where
  "resultKey r = (resultFile r, line r)"

fun updateFirst :: "('a \<Rightarrow> bool) \<Rightarrow> ('a \<Rightarrow> 'a) \<Rightarrow> 'a list \<Rightarrow> 'a list" where
  "updateFirst P f [] = []"
| "updateFirst P f (x # xs) = (if P x then f x # xs else x # updateFirst P f xs)"

definition deduplicateResults :: "tracedResult list \<Rightarrow> tracedResult list" where
  "deduplicateResults results =
     foldl (\<lambda>unique result.
              if resultKey result \<notin> set (map resultKey unique) then unique @ [result]
              else updateFirst (\<lambda>r. resultKey r = resultKey result)
                     (\<lambda>existing.
                        if relevanceScore result > relevanceScore existing
                        then existing\<lparr>relevanceScore := relevanceScore result,
                                      searchContext := searchContext result\<rparr>
                        else existing)
                     unique)
       [] results"

function showNat :: "nat \<Rightarrow> string" where
  "showNat n = (if n < 10 then [digitChars ! n] else showNat (n div 10) @ [digitChars ! (n mod 10)])"
  by pat_completeness auto
termination
  by (relation "measure (\<lambda>n. n)") auto

declare showNat.simps [simp del]

definition showInt :: "int \<Rightarrow> string" where
  "showInt i = (if i < 0 then CHR ''-'' # showNat (nat (- i)) else showNat (nat i))"

definition noMatch :: string where
  "noMatch = ''No matching source found for the error log.''"

definition formatOne :: "nat \<Rightarrow> tracedResult \<Rightarrow> string" where
  "formatOne idx r =
     (let firstLine = (if contextText r = [] then [] else hd (splitOn newline (contextText r)));
          relevantLine = (if firstLine = [] then ''No context available'' else trim firstLine);
          fileText = relativeString (resultFile r);
          shortPath = (if length fileText > 50
                       then ''...'' @ drop (length fileText - 47) fileText else fileText)
      in showNat (idx + 1) @ ''. '' @ shortPath @ '':'' @ showNat (line r) @ [newline] @ ''   ''
           @ relevantLine
           @ (if relevanceScore r \<noteq> 0
              then '' [relevance: '' @ showInt (relevanceScore r) @ '']'' else []))"

definition formatTraceResult :: "tracedResult list \<Rightarrow> string" where
  "formatTraceResult results =
     (if results = [] then noMatch
      else joinWith [newline, newline] (map (\<lambda>(idx, r). formatOne idx r) (enumerate 0 results)))"

definition delimiterRx :: rx where
  "delimiterRx = Cls False '':-|''"

text \<open>
  \<open>andThen\<close> continues with the value of a step that returned and hands on the error of
  one that threw.  The four strategies of the tracer work on the results found so far
  and the set \<open>searchedQueries\<close>; the second, third and fourth run only while fewer than
  three results are there.
\<close>

definition andThen :: "'e + 'a \<Rightarrow> ('a \<Rightarrow> 'e + 'b) \<Rightarrow> 'e + 'b" where
  "andThen r f = (case r of Inl failure \<Rightarrow> Inl failure | Inr v \<Rightarrow> f v)"

definition lightStep ::
  "(string \<Rightarrow> string \<Rightarrow> string list \<Rightarrow> 'e + 'r list option \<times> string list) \<Rightarrow> string
     \<Rightarrow> 'r list \<times> string list \<Rightarrow> 'e + 'r list \<times> string list" where
  "lightStep try lg st =
     (if length (fst st) < 3
      then andThen (try ''light_normalized'' (normalizeLogText lg Light) (snd st))
             (\<lambda>(hits, searched). Inr (fst st @ orDefault hits [], searched))
      else Inr st)"

definition moderateStep ::
  "(string \<Rightarrow> string \<Rightarrow> string list \<Rightarrow> 'e + 'r list option \<times> string list) \<Rightarrow> string
     \<Rightarrow> 'r list \<times> string list \<Rightarrow> 'e + 'r list \<times> string list" where
  "moderateStep try lg st =
     (if length (fst st) < 3
      then andThen (try ''moderate_normalized'' (normalizeLogText lg Moderate) (snd st))
             (\<lambda>(hits, searched).
                searchParts (try ''phrase_part'') (fst st @ orDefault hits []) searched
                  (rxSplit delimiterRx False (normalizeLogText lg Moderate)))
      else Inr st)"

definition errorTypeStep ::
  "(string \<Rightarrow> string \<Rightarrow> string list \<Rightarrow> 'e + 'r list option \<times> string list) \<Rightarrow> string
     \<Rightarrow> 'r list \<times> string list \<Rightarrow> 'e + 'r list \<times> string list" where
  "errorTypeStep try lg st =
     (if length (fst st) < 3
      then searchEach (try ''error_type'') (fst st) (snd st) (extractErrorTypes lg)
      else Inr st)"

definition traceErrorLogToSource ::
  "engine \<Rightarrow> world \<Rightarrow> (fpath \<Rightarrow> 'k::linorder) \<Rightarrow> string \<Rightarrow> fpath list \<Rightarrow> searchOptions
     \<Rightarrow> searchError + string" where
  "traceErrorLogToSource eng w collate lg searchPaths options =
     (let try = trySearch eng w collate lg searchPaths options
      in andThen (searchEach (try ''key_phrase'') [] [] (extractKeyPhrases lg)) (\<lambda>step1.
         andThen (lightStep try lg step1) (\<lambda>step2.
         andThen (moderateStep try lg step2) (\<lambda>step3.
         andThen (errorTypeStep try lg step3) (\<lambda>step4.
           Inr (if fst step4 = [] then noMatch
                else formatTraceResult
                       (take 3 (jsSort (\<lambda>a b. relevanceScore b - relevanceScore a)
                                  (deduplicateResults (fst step4))))))))))"


section \<open>The dependency resolver (\<open>EnhancedTraversalAnalyzer\<close>)\<close>

text \<open>
  The resolver builds plain JavaScript objects; they are modelled as values of \<open>jsval\<close>,
  an object being the list of its fields in the order they are written.  The search
  engine is handed to the resolver's constructor, so the resolver is modelled over any
  search function \<open>search pattern roots options\<close>: it gives the field \<open>results\<close> of the
  answer of \<open>searchEngine.smartSearch\<close>, or \<open>None\<close> when that call throws.

  The tracers push to \<open>analysis.dependencies\<close> and have no \<open>try\<close> block.  When a search
  throws, the loop and the tracer are left and the analysis keeps what was pushed
  before: \<open>Thrown a\<close> is an exception on its way to the \<open>catch\<close> of
  \<open>analyzeWithTraversal\<close> with the analysis as it is then, \<open>Done a\<close> a normal return.
\<close>

datatype jsval = JNull | JStr string | JNum int | JArr "jsval list" | JObj "(string \<times> jsval) list"

type_synonym searchEngine =
  "string \<Rightarrow> fpath list \<Rightarrow> searchOptions \<Rightarrow> searchResult list option"





definition field :: "jsval \<Rightarrow> string \<Rightarrow> jsval option" where
  "field v k = (case v of JObj fs \<Rightarrow> map_of fs k | _ \<Rightarrow> None)"


























































section \<open>Configuration tracing in \<open>CodeTraversalEngine\<close>\<close>

record methodCall =
  fullCall :: string
  objectPart :: "string option"
  methodName :: string
  callParameters :: "string list"

record methodInfo =
  infoCall :: string
  infoDefinition :: "string option"
  infoSource :: "string option"
  infoBody :: "string option"

record traceStep =
  step :: nat
  description :: string
  location :: string

record configInfo =
  configMethod :: string
  configSource :: "string option"
  dataSource :: "string option"
  sqlQuery :: "string option"
  tableName :: "string option"
  populationSteps :: "traceStep list"

definition selectInQuotesRx :: "char \<Rightarrow> rx" where
  "selectInQuotesRx q = rxSeqs [rxChr q, Grp 1 (Seq (rxLit ''SELECT'') (StarLazy rxAny)), rxChr q]"

definition bareSelectRx :: rx where
  "bareSelectRx = rxSeqs [rxLit ''SELECT'', StarLazy rxAny,
     Look (rxAlts [rxChr (CHR 0x22), rxChr (CHR 0x27), rxChr (CHR '';''), rxChr (CHR '')''), Eol])]"

definition outerQuoteRx :: rx where
  "outerQuoteRx = Alt (Seq Bol (Cls False [CHR 0x22, CHR 0x27]))
     (Seq (Cls False [CHR 0x22, CHR 0x27]) Eol)"

definition fromTableRx :: rx where
  "fromTableRx = rxSeqs [rxLit ''FROM'', rxPlus rxSpace, Grp 1 (rxPlus rxWord)]"

fun firstSql :: "rx list \<Rightarrow> string \<Rightarrow> string option" where
  "firstSql [] body = None"
| "firstSql (r # rs) body =
     (case matchTexts r True body of
        [] \<Rightarrow> firstSql rs body
      | m # ms \<Rightarrow> Some (trim (replaceAll outerQuoteRx False [] m)))"

text \<open>
  \<open>nonEmpty v\<close> holds when the source's test \<open>if (v)\<close> on a string or \<open>null\<close> succeeds.
\<close>

definition nonEmpty :: "string option \<Rightarrow> bool" where
  "nonEmpty v = (case v of None \<Rightarrow> False | Some t \<Rightarrow> t \<noteq> [])"

definition buildConfigurationSteps :: "methodCall \<Rightarrow> methodInfo \<Rightarrow> configInfo \<Rightarrow> traceStep list" where
  "buildConfigurationSteps mc mi ci =
     [\<lparr>step = 1, description = ''Configuration accessed: '' @ fullCall mc,
       location = ''Usage point''\<rparr>]
     @ (if nonEmpty (infoDefinition mi)
        then [\<lparr>step = 2, description = ''Resolved to method: '' @ orDefault (infoDefinition mi) [],
               location = orDefault (infoSource mi) []\<rparr>]
        else [])
     @ (if dataSource ci = Some ''database''
        then [\<lparr>step = 3, description = ''Data loaded from database'',
               location = (if nonEmpty (tableName ci) then orDefault (tableName ci) []
                           else ''Database table'')\<rparr>]
             @ (if nonEmpty (sqlQuery ci)
                then [\<lparr>step = 4, description = ''SQL Query: '' @ orDefault (sqlQuery ci) [],
                       location = ''Database query''\<rparr>]
                else [])
        else [])"

definition traceConfigurationMethod :: "methodCall \<Rightarrow> methodInfo option \<Rightarrow> configInfo option" where
  "traceConfigurationMethod mc info =
     (case info of
        None \<Rightarrow> None
      | Some mi \<Rightarrow>
          (case infoBody mi of
             None \<Rightarrow> None
           | Some body \<Rightarrow>
               if body = [] then None
               else
                 (let sql = firstSql [selectInQuotesRx (CHR 0x22), selectInQuotesRx (CHR 0x27),
                                      bareSelectRx] body;
                      jdbc = includesStr body ''jdbcTemplate'';
                      ci = \<lparr>configMethod = fullCall mc,
                            configSource = infoSource mi,
                            dataSource = (if sql \<noteq> None \<or> jdbc then Some ''database'' else None),
                            sqlQuery = sql,
                            tableName =
                              (if jdbc \<and> nonEmpty sql
                               then (case firstGroups fromTableRx True (orDefault sql []) of
                                       None \<Rightarrow> None
                                     | Some caps \<Rightarrow> Some (group caps 1))
                               else None),
                            populationSteps = []\<rparr>
                  in Some (ci\<lparr>populationSteps := buildConfigurationSteps mc mi ci\<rparr>))))"

section \<open>Example inputs\<close>

text \<open>
  A Linux environment in which paths are already normal and absolute and nothing exists
  on disk, so that \<open>lstatSync\<close> throws.
\<close>

definition plainEnv :: pathEnv where
  "plainEnv = \<lparr>platformOf = Linux, normalize = (\<lambda>p. p), resolve = (\<lambda>p. Some p),
     lstatIsSymlink = (\<lambda>p. None), realpath = (\<lambda>p. None)\<rparr>"

text \<open>
  The same environment after the working directory has been removed: \<open>path.resolve\<close>
  throws on every path that does not start with \<open>/\<close>.
\<close>

definition goneEnv :: pathEnv where
  "goneEnv = plainEnv\<lparr>resolve := (\<lambda>p. if startsWith p ''/'' then Some p else None)\<rparr>"

text \<open>
  The same for the synchronous walker: every directory exists and holds one file.
\<close>

definition plainSyncEnv :: syncEnv where
  "plainSyncEnv = \<lparr>pathResolve = (\<lambda>p. Some p), pathJoin = (\<lambda>d n. d @ ''/'' @ n),
     pathRelative = (\<lambda>d p. Some (drop (Suc (length d)) p)), pathDirname = (\<lambda>p. p),
     pathExtname = extname, existsSync = (\<lambda>p. True), lstatIsDirectory = (\<lambda>p. Some True),
     readdirSync = (\<lambda>p. Some [FileEnt ''report.txt''])\<rparr>"

text \<open>
  A small tree under \<open>/srv\<close>: \<open>main.js\<close>, \<open>lib/util.js\<close>, \<open>lib/deep/far.js\<close> and
  \<open>node_modules/dep.js\<close>; every file holds the text \<open>needle\<close>, and \<open>RegExp\<close> rejects
  every pattern but the empty one.
\<close>

definition exampleTree :: "fpath \<Rightarrow> dirent list option" where
  "exampleTree p =
     (if p = [''srv''] then Some [DirEnt ''lib'', FileEnt ''main.js'', DirEnt ''node_modules'']
      else if p = [''srv'', ''lib''] then Some [FileEnt ''util.js'', DirEnt ''deep'']
      else if p = [''srv'', ''lib'', ''deep''] then Some [FileEnt ''far.js'']
      else if p = [''srv'', ''node_modules''] then Some [FileEnt ''dep.js'']
      else None)"

definition exampleWorld :: world where
  "exampleWorld = \<lparr>readdir = exampleTree, statSize = (\<lambda>p. Some 10),
     readFile = (\<lambda>p. Some ''needle''), pathValid = (\<lambda>p. True), compile = (\<lambda>p. None)\<rparr>"

definition exampleEngine :: engine where
  "exampleEngine = \<lparr>maxFileSize = 1000, maxDepth = 30, maxFilesToProcess = 200,
     maxResults = 5, batchSize = 2\<rparr>"

definition depthTwo :: walkOptions where
  "depthTwo = \<lparr>maxDepthOpt = Some 2, extensionsOpt = None, skipDirsOpt = None\<rparr>"

definition utilEntry :: fileEntry where
  "utilEntry = \<lparr>path = [''srv'', ''lib'', ''util.js''], name = ''util.js'', extension = ''.js'',
     relativePath = [''lib'', ''util.js''], directory = [''srv'', ''lib''],
     fileType = ''javascript''\<rparr>"

definition mainEntry :: fileEntry where
  "mainEntry = \<lparr>path = [''srv'', ''main.js''], name = ''main.js'', extension = ''.js'',
     relativePath = [''main.js''], directory = [''srv''], fileType = ''javascript''\<rparr>"

text \<open>
  Search options: the defaults with a ceiling of two, of five and of one result, and an
  engine that works in batches of one file.  \<open>oneEach\<close> finds one match in every file.
\<close>

definition twoResults :: searchOptions where
  "twoResults = \<lparr>fileTypes = None, maxResultsOpt = Some 2, maxFilesOpt = None,
     caseSensitiveOpt = None, contextLinesOpt = None, excludePatterns = None\<rparr>"

definition fiveResults :: searchOptions where
  "fiveResults = \<lparr>fileTypes = None, maxResultsOpt = Some 5, maxFilesOpt = None,
     caseSensitiveOpt = None, contextLinesOpt = None, excludePatterns = None\<rparr>"

definition oneResult :: searchOptions where
  "oneResult = \<lparr>fileTypes = None, maxResultsOpt = Some 1, maxFilesOpt = None,
     caseSensitiveOpt = None, contextLinesOpt = None, excludePatterns = None\<rparr>"

definition smallBatches :: engine where
  "smallBatches = \<lparr>maxFileSize = 1000, maxDepth = 30, maxFilesToProcess = 200,
     maxResults = 5, batchSize = 1\<rparr>"

definition oneEach :: "nat \<Rightarrow> nat list option" where
  "oneEach x = Some [x]"

text \<open>The log line of the normalization example.\<close>

definition exampleLog :: string where
  "exampleLog = ''User 192.168.0.5 failed at 2023-01-01T10:00:00Z code=404''"

text \<open>
  A world for the resolver.  \<open>simpleRegExp\<close> is \<open>RegExp\<close> on the patterns the resolver
  builds from plain names: a pattern is a sequence of literal characters, dots and the
  escapes \<open>\s\<close>, \<open>\d\<close>, \<open>\w\<close>, \<open>\b\<close> and escaped punctuation, each optionally followed by
  \<open>*\<close> or \<open>+\<close>.
\<close>

datatype token = TChar char | TEsc char

fun tokens :: "string \<Rightarrow> token list" where
  "tokens [] = []"
| "tokens [c] = [TChar c]"
| "tokens (c # d # rest) =
     (if c = CHR 0x5C then TEsc d # tokens rest else TChar c # tokens (d # rest))"

definition atomOf :: "token \<Rightarrow> rx option" where
  "atomOf t =
     (case t of
        TEsc c \<Rightarrow>
          if c = CHR ''s'' then Some rxSpace
          else if c = CHR ''d'' then Some rxDigit
          else if c = CHR ''w'' then Some rxWord
          else if c = CHR ''b'' then Some Bnd
          else if c \<in> set wordChars then None
          else Some (rxChr c)
      | TChar c \<Rightarrow>
          if c = CHR ''.'' then Some rxDot
          else if c \<in> set ''*+?()[]{}|^$'' then None
          else Some (rxChr c))"

fun buildAtoms :: "token list \<Rightarrow> rx list option" where
  "buildAtoms [] = Some []"
| "buildAtoms [t] = map_option (\<lambda>a. [a]) (atomOf t)"
| "buildAtoms (t # q # ts) =
     (case atomOf t of
        None \<Rightarrow> None
      | Some a \<Rightarrow>
          if q = TChar (CHR ''*'') then map_option (\<lambda>as. Star a # as) (buildAtoms ts)
          else if q = TChar (CHR ''+'') then map_option (\<lambda>as. rxPlus a # as) (buildAtoms ts)
          else map_option (\<lambda>as. a # as) (buildAtoms (q # ts)))"

definition simpleRegExp :: "string \<Rightarrow> rx option" where
  "simpleRegExp pat = map_option rxSeqs (buildAtoms (tokens pat))"

text \<open>
  Two source trees under \<open>/app\<close>, each with the one file \<open>ConfigLoader.java\<close>.  In the
  first the population method only runs the query; in the second it assigns the result
  to the list.
\<close>

definition callOnlySource :: string where
  "callOnlySource = ''void populateColPlanList() { jdbcTemplate.query('' @ [CHR 0x22]
     @ ''SELECT * FROM PLAN_TABLE'' @ [CHR 0x22] @ ''); }''"

definition assigningSource :: string where
  "assigningSource = ''void populateColPlanList() {'' @ [newline]
     @ ''  colPlanList = jdbcTemplate.query('' @ [CHR 0x22] @ ''SELECT * FROM PLAN_TABLE''
     @ [CHR 0x22] @ '');'' @ [newline] @ ''}''"

definition javaWorld :: "string \<Rightarrow> world" where
  "javaWorld content =
     \<lparr>readdir = (\<lambda>p. if p = [''app''] then Some [FileEnt ''ConfigLoader.java''] else None),
      statSize = (\<lambda>p. Some 100), readFile = (\<lambda>p. Some content), pathValid = (\<lambda>p. True),
      compile = simpleRegExp\<rparr>"

definition javaSearch :: "string \<Rightarrow> searchEngine" where
  "javaSearch content pat roots options =
     (case smartSearch exampleEngine (javaWorld content) relativeString pat roots options of
        Inl failure \<Rightarrow> None
      | Inr (results, processed) \<Rightarrow> Some results)"



definition populateCall :: methodCall where
  "populateCall = \<lparr>fullCall = ''ConfigStore.populateColPlanList'', objectPart = Some ''ConfigStore'',
     methodName = ''populateColPlanList'', callParameters = []\<rparr>"

definition populateBody :: string where
  "populateBody = ''{ jdbcTemplate.query('' @ [CHR 0x22] @ ''SELECT * FROM PLAN_TABLE''
     @ [CHR 0x22] @ ''); }''"

definition populateInfo :: methodInfo where
  "populateInfo = \<lparr>infoCall = ''ConfigStore.populateColPlanList'',
     infoDefinition = Some ''void populateColPlanList() {'',
     infoSource = Some ''ConfigLoader.java'',
     infoBody = Some populateBody\<rparr>"




text \<open>
  The world of the small tree with a path guard that rejects every path; a pattern with
  an unbalanced parenthesis, the empty pattern, and a text of two lines.
\<close>

definition lockedWorld :: world where
  "lockedWorld = exampleWorld\<lparr>pathValid := (\<lambda>p. False)\<rparr>"



definition unbalanced :: patternInfo where
  "unbalanced = mkPattern ''a('' ''exact'' 10"

definition emptyPattern :: patternInfo where
  "emptyPattern = mkPattern [] ''exact'' 10"

definition twoLines :: string where
  "twoLines = ''a(b'' @ [newline] @ ''xA(b''"

section \<open>Properties of the path guard\<close>

lemma startsWith_iff: "startsWith s p \<longleftrightarrow> (\<exists>b. s = p @ b)"
  by (induction s p rule: startsWith.induct) auto

lemma includesStr_iff: "includesStr s p \<longleftrightarrow> (\<exists>a b. s = a @ p @ b)"
proof (induction s)
  case Nil
  then show ?case by auto
next
  case (Cons c cs)
  show ?case
  proof
    assume "includesStr (c # cs) p"
    then consider "startsWith (c # cs) p" | "includesStr cs p" by auto
    then show "\<exists>a b. c # cs = a @ p @ b"
    proof cases
      case 1
      then obtain b where "c # cs = p @ b" by (auto simp: startsWith_iff)
      then have "c # cs = [] @ p @ b" by simp
      then show ?thesis by blast
    next
      case 2
      with Cons.IH obtain a b where "cs = a @ p @ b" by blast
      then have "c # cs = (c # a) @ p @ b" by simp
      then show ?thesis by blast
    qed
  next
    assume "\<exists>a b. c # cs = a @ p @ b"
    then obtain a b where ab: "c # cs = a @ p @ b" by blast
    show "includesStr (c # cs) p"
    proof (cases a)
      case Nil
      with ab have "startsWith (c # cs) p" by (auto simp: startsWith_iff)
      then show ?thesis by simp
    next
      case (Cons x a')
      with ab have "cs = a' @ p @ b" by simp
      with Cons.IH have "includesStr cs p" by blast
      then show ?thesis by simp
    qed
  qed
qed

text \<open>
  C10, as stated, fails: the length check comes before the traversal check, so a string
  of 4097 characters that contains \<open>..\<close> is rejected with \<open>PATH_TOO_LONG\<close>.
\<close>

theorem validatePath_long_counterexample:
  "includesStr (replicate 4095 (CHR ''a'') @ ''..'') ''..'' \<and>
   validatePath plainEnv [] (replicate 4095 (CHR ''a'') @ ''..'')
     = Some (Invalid PATH_TOO_LONG, [])"
proof
  show "includesStr (replicate 4095 (CHR ''a'') @ ''..'') ''..''"
    unfolding includesStr_iff
    by (rule exI [of _ "replicate 4095 (CHR ''a'')"], rule exI [of _ "[]"]) simp
  show "validatePath plainEnv [] (replicate 4095 (CHR ''a'') @ ''..'')
          = Some (Invalid PATH_TOO_LONG, [])"
    by (subst validatePath.simps) (simp add: maxPathLength_def)
qed

text \<open>
  C10, amended: every string that contains the two characters \<open>..\<close> anywhere is rejected,
  whatever the environment and the security log: with \<open>PATH_TOO_LONG\<close> when it has more
  than 4096 characters; otherwise with \<open>VALIDATION_ERROR\<close>, and nothing logged, when
  \<open>path.resolve\<close> throws; otherwise with \<open>TRAVERSAL_DETECTED\<close> and a logged violation.
  The decision reads the text of the path, not its segments.
\<close>

theorem validatePath_dotdot:
  assumes "\<exists>a b. filePath = a @ ''..'' @ b"
  shows "validatePath env lg filePath =
           (if length filePath > 4096 then Some (Invalid PATH_TOO_LONG, lg)
            else (case resolve env (normalize env filePath) of
                    None \<Rightarrow> Some (Invalid VALIDATION_ERROR, lg)
                  | Some absolutePath \<Rightarrow>
                      Some (Invalid TRAVERSAL_DETECTED,
                            logSecurityViolation lg TRAVERSAL_ATTEMPT filePath)))"
proof -
  from assms have inc: "includesStr filePath ''..''"
    by (simp add: includesStr_iff)
  from assms have ne: "filePath \<noteq> []"
    by auto
  show ?thesis
    by (subst validatePath.simps) (simp add: inc ne maxPathLength_def split: option.split)
qed

theorem validatePath_dotdot_witness:
  "validatePath plainEnv [] ''my..notes.txt'' =
     Some (Invalid TRAVERSAL_DETECTED, [(TRAVERSAL_ATTEMPT, ''my..notes.txt'')]) \<and>
   validatePath goneEnv [] ''my..notes.txt'' = Some (Invalid VALIDATION_ERROR, [])"
proof -
  have ex: "\<exists>a b. ''my..notes.txt'' = a @ ''..'' @ b"
    by (rule exI [of _ "''my''"], rule exI [of _ "''notes.txt''"]) simp
  from validatePath_dotdot [OF ex, of plainEnv "[]"]
  have 1: "validatePath plainEnv [] ''my..notes.txt'' =
     Some (Invalid TRAVERSAL_DETECTED, [(TRAVERSAL_ATTEMPT, ''my..notes.txt'')])"
    by (simp add: logSecurityViolation_def plainEnv_def)
  from validatePath_dotdot [OF ex, of goneEnv "[]"]
  have 2: "validatePath goneEnv [] ''my..notes.txt'' = Some (Invalid VALIDATION_ERROR, [])"
    by (simp add: goneEnv_def plainEnv_def)
  from 1 2 show ?thesis by simp
qed

lemma blocked_ex: "isBlocked Linux ''/srv/data/report.txt'' = False"
  by code_simp

lemma inc_ex: "includesStr ''/srv/data/report.txt'' ''..'' = False"
  by code_simp

text \<open>
  C2, as stated, fails: the validator has no allow-list.  With \<open>/home/app\<close> as the only
  allowed root, \<open>/srv/data/report.txt\<close> lies outside it, matches no denylist pattern and
  has no traversal sequence, and is accepted.
\<close>

theorem validatePath_no_allowlist_counterexample:
  "isAllowed plainSyncEnv [''/home/app''] ''/srv/data/report.txt'' = Some False \<and>
   validatePath plainEnv [] ''/srv/data/report.txt'' = Some (Valid ''/srv/data/report.txt'', [])"
proof
  show "isAllowed plainSyncEnv [''/home/app''] ''/srv/data/report.txt'' = Some False"
    by (simp add: plainSyncEnv_def)
  show "validatePath plainEnv [] ''/srv/data/report.txt'' = Some (Valid ''/srv/data/report.txt'', [])"
    by (subst validatePath.simps) (simp add: plainEnv_def maxPathLength_def blocked_ex inc_ex)
qed

text \<open>
  The allow-list test succeeds only on a directory whose resolved form starts with the
  resolved form of an allowed path, and every entry the walker returns was listed in a
  directory that passed the test.
\<close>

lemma isAllowed_prefix:
  "isAllowed env allowedPaths dir = Some True \<Longrightarrow>
     \<exists>allowedPath resolvedAllowed resolvedTarget.
        allowedPath \<in> set allowedPaths \<and> pathResolve env allowedPath = Some resolvedAllowed \<and>
        pathResolve env dir = Some resolvedTarget \<and> startsWith resolvedTarget resolvedAllowed"
proof (induction allowedPaths)
  case Nil
  then show ?case by simp
next
  case (Cons a rest)
  from Cons.prems obtain ra rt where ra: "pathResolve env a = Some ra"
    and rt: "pathResolve env dir = Some rt"
    and alt: "startsWith rt ra \<or> isAllowed env rest dir = Some True"
    by (auto split: option.splits if_splits)
  from alt show ?case
  proof
    assume "startsWith rt ra"
    with ra rt have "a \<in> set (a # rest) \<and> pathResolve env a = Some ra \<and>
        pathResolve env dir = Some rt \<and> startsWith rt ra"
      by simp
    then show ?thesis by blast
  next
    assume "isAllowed env rest dir = Some True"
    from Cons.IH [OF this] obtain b rb rt'
      where "b \<in> set rest \<and> pathResolve env b = Some rb \<and>
        pathResolve env dir = Some rt' \<and> startsWith rt' rb"
      by blast
    then have "b \<in> set (a # rest) \<and> pathResolve env b = Some rb \<and>
        pathResolve env dir = Some rt' \<and> startsWith rt' rb"
      by simp
    then show ?thesis by blast
  qed
qed

lemma getAllFilesSync_allowed:
  "e \<in> set (getAllFilesSync env allowedPaths dirPath maxDepthArg currentDepth) \<Longrightarrow>
     \<exists>dir. isAllowed env allowedPaths dir = Some True \<and>
           entryPath e = pathJoin env dir (entryName e)"
proof (induction env allowedPaths dirPath maxDepthArg currentDepth rule: getAllFilesSync.induct)
  case (1 env allowedPaths dirPath maxDepth currentDepth)
  let ?visit = "\<lambda>entry.
                (case entry of
                  DirEnt nm \<Rightarrow>
                    if startsWith nm ''.'' \<and> nm \<noteq> ''.'' then []
                    else if toLowerCase nm \<in> set syncSkipDirs then []
                    else getAllFilesSync env allowedPaths (pathJoin env dirPath nm) maxDepth
                           (Suc currentDepth)
                | FileEnt nm \<Rightarrow>
                    (case pathRelative env dirPath (pathJoin env dirPath nm) of
                       None \<Rightarrow> []
                     | Some relative \<Rightarrow>
                         [\<lparr>entryPath = pathJoin env dirPath nm,
                           entryRelativePath = relative,
                           entryName = nm,
                           entryExtension = toLowerCase (pathExtname env nm),
                           entryDirectory = pathDirname env (pathJoin env dirPath nm)\<rparr>])
                | OtherEnt nm \<Rightarrow> [])"
  from "1.prems" have mem: "e \<in> set (if isAllowed env allowedPaths dirPath \<noteq> Some True then []
      else if \<not> existsSync env dirPath then []
      else case lstatIsDirectory env dirPath of
        None \<Rightarrow> []
      | Some isDir \<Rightarrow>
          if \<not> isDir then []
          else if int currentDepth \<ge> maxDepth then []
          else (case readdirSync env dirPath of
            None \<Rightarrow> []
          | Some entries \<Rightarrow> concat (map ?visit entries)))"
    by (subst (asm) getAllFilesSync.simps) simp
  then have allowed: "isAllowed env allowedPaths dirPath = Some True"
    by (cases "isAllowed env allowedPaths dirPath = Some True") auto
  from mem allowed have exists: "existsSync env dirPath"
    by (cases "existsSync env dirPath") auto
  from mem allowed exists obtain isDir where st: "lstatIsDirectory env dirPath = Some isDir"
    by (cases "lstatIsDirectory env dirPath") auto
  from mem allowed exists st have isDir: "isDir"
    by (cases isDir) auto
  from mem allowed exists st isDir have notDeep: "\<not> maxDepth \<le> int currentDepth"
    by (cases "maxDepth \<le> int currentDepth") auto
  from mem allowed exists st isDir notDeep obtain entries
    where rd: "readdirSync env dirPath = Some entries"
      and mem2: "e \<in> set (concat (map ?visit entries))"
    by (cases "readdirSync env dirPath") auto
  then obtain entry where ent: "entry \<in> set entries" and fin: "e \<in> set (?visit entry)"
    by auto
  show ?case
  proof (cases entry)
    case (FileEnt nm)
    with fin have "entryPath e = pathJoin env dirPath nm \<and> entryName e = nm"
      by (auto split: option.splits)
    with allowed have "isAllowed env allowedPaths dirPath = Some True \<and>
        entryPath e = pathJoin env dirPath (entryName e)"
      by simp
    then show ?thesis by blast
  next
    case (DirEnt nm)
    with fin have notHidden: "\<not> (startsWith nm ''.'' \<and> nm \<noteq> ''.'')"
      and notSkipped: "toLowerCase nm \<notin> set syncSkipDirs"
      and sub: "e \<in> set (getAllFilesSync env allowedPaths (pathJoin env dirPath nm) maxDepth
          (Suc currentDepth))"
      by (auto split: if_splits)
    from allowed have a': "\<not> isAllowed env allowedPaths dirPath \<noteq> Some True" by simp
    from exists have e': "\<not> \<not> existsSync env dirPath" by simp
    from isDir have d': "\<not> \<not> isDir" by simp
    from "1.IH" [OF a' e' st d' notDeep rd ent DirEnt notHidden notSkipped sub]
    show ?thesis .
  next
    case (OtherEnt nm)
    with fin show ?thesis by simp
  qed
qed

text \<open>
  C2, amended: the allowed-root rule is enforced by the walker
  \<open>RobustSearchEngine.getAllFilesSync\<close>.  Every entry it returns was listed in a directory
  whose resolved form starts with the resolved form of an allowed path, and it returns
  no entry for a directory that does not pass this test.  The validator itself consults
  no allowed root: when \<open>path.resolve\<close> returns, it accepts every non-empty path of at most
  4096 characters without \<open>..\<close> whose resolved form matches no denylist pattern and is
  not a symbolic link.
\<close>

theorem allowlist_enforced_by_walker:
  "(\<forall>e \<in> set (getAllFilesSync env allowedPaths dirPath maxDepthArg currentDepth).
      \<exists>dir allowedPath resolvedAllowed resolvedTarget.
        entryPath e = pathJoin env dir (entryName e) \<and>
        allowedPath \<in> set allowedPaths \<and> pathResolve env allowedPath = Some resolvedAllowed \<and>
        pathResolve env dir = Some resolvedTarget \<and> startsWith resolvedTarget resolvedAllowed) \<and>
   (isAllowed env allowedPaths dirPath \<noteq> Some True \<longrightarrow>
      getAllFilesSync env allowedPaths dirPath maxDepthArg currentDepth = []) \<and>
   (filePath \<noteq> [] \<and> length filePath \<le> 4096 \<and>
    resolve penv (normalize penv filePath) = Some absolutePath \<and>
    \<not> includesStr (normalize penv filePath) ''..'' \<and> \<not> includesStr filePath ''..'' \<and>
    \<not> isBlocked (platformOf penv) absolutePath \<and>
    lstatIsSymlink penv absolutePath \<noteq> Some True \<longrightarrow>
      validatePath penv lg filePath = Some (Valid absolutePath, lg))"
proof (intro conjI impI ballI)
  fix e
  assume "e \<in> set (getAllFilesSync env allowedPaths dirPath maxDepthArg currentDepth)"
  from getAllFilesSync_allowed [OF this] obtain dir
    where al: "isAllowed env allowedPaths dir = Some True"
      and pa: "entryPath e = pathJoin env dir (entryName e)"
    by blast
  from isAllowed_prefix [OF al] pa
  show "\<exists>dir allowedPath resolvedAllowed resolvedTarget.
        entryPath e = pathJoin env dir (entryName e) \<and>
        allowedPath \<in> set allowedPaths \<and> pathResolve env allowedPath = Some resolvedAllowed \<and>
        pathResolve env dir = Some resolvedTarget \<and> startsWith resolvedTarget resolvedAllowed"
    by blast
next
  assume "isAllowed env allowedPaths dirPath \<noteq> Some True"
  then show "getAllFilesSync env allowedPaths dirPath maxDepthArg currentDepth = []"
    by (subst getAllFilesSync.simps) simp
next
  assume "filePath \<noteq> [] \<and> length filePath \<le> 4096 \<and>
    resolve penv (normalize penv filePath) = Some absolutePath \<and>
    \<not> includesStr (normalize penv filePath) ''..'' \<and> \<not> includesStr filePath ''..'' \<and>
    \<not> isBlocked (platformOf penv) absolutePath \<and>
    lstatIsSymlink penv absolutePath \<noteq> Some True"
  then show "validatePath penv lg filePath = Some (Valid absolutePath, lg)"
    by (subst validatePath.simps) (simp add: maxPathLength_def)
qed

lemma blocked_ex2: "isBlocked Linux ''/opt/tools/build.sh'' = False"
  by code_simp

lemma inc_ex2: "includesStr ''/opt/tools/build.sh'' ''..'' = False"
  by code_simp

lemma walk_ex:
  "map entryPath (getAllFilesSync plainSyncEnv [''/home/app'', ''/var/www''] ''/var/www/site'' 1 0)
     = [''/var/www/site/report.txt'']"
  by code_simp

theorem allowlist_enforced_by_walker_witness:
  "isAllowed plainSyncEnv [''/home/app'', ''/var/www''] ''/opt/tools'' = Some False \<and>
   getAllFilesSync plainSyncEnv [''/home/app'', ''/var/www''] ''/opt/tools'' 30 0 = [] \<and>
   map entryPath (getAllFilesSync plainSyncEnv [''/home/app'', ''/var/www''] ''/var/www/site'' 1 0)
     = [''/var/www/site/report.txt''] \<and>
   (\<exists>dir allowedPath. allowedPath \<in> set [''/home/app'', ''/var/www''] \<and>
      startsWith dir allowedPath \<and> ''/var/www/site/report.txt'' = dir @ ''/report.txt'') \<and>
   validatePath plainEnv [] ''/opt/tools/build.sh'' = Some (Valid ''/opt/tools/build.sh'', [])"
proof -
  let ?allowed = "[''/home/app'', ''/var/www'']"
  let ?walk = "getAllFilesSync plainSyncEnv ?allowed ''/var/www/site'' 1 0"
  note t = allowlist_enforced_by_walker [of plainSyncEnv ?allowed _ _ _
      "''/opt/tools/build.sh''" plainEnv "''/opt/tools/build.sh''" "[]"]
  have na: "isAllowed plainSyncEnv ?allowed ''/opt/tools'' = Some False"
    by (simp add: plainSyncEnv_def)
  then have na': "isAllowed plainSyncEnv ?allowed ''/opt/tools'' \<noteq> Some True"
    by simp
  have pre: "''/opt/tools/build.sh'' \<noteq> [] \<and> length ''/opt/tools/build.sh'' \<le> 4096 \<and>
    resolve plainEnv (normalize plainEnv ''/opt/tools/build.sh'') = Some ''/opt/tools/build.sh'' \<and>
    \<not> includesStr (normalize plainEnv ''/opt/tools/build.sh'') ''..'' \<and>
    \<not> includesStr ''/opt/tools/build.sh'' ''..'' \<and>
    \<not> isBlocked (platformOf plainEnv) ''/opt/tools/build.sh'' \<and>
    lstatIsSymlink plainEnv ''/opt/tools/build.sh'' \<noteq> Some True"
    by (simp add: plainEnv_def blocked_ex2 inc_ex2)
  from t [of "''/opt/tools''" 30 0] na'
  have empty: "getAllFilesSync plainSyncEnv ?allowed ''/opt/tools'' 30 0 = []"
    by blast
  from t [of "''/opt/tools''" 30 0] pre
  have valid: "validatePath plainEnv [] ''/opt/tools/build.sh''
      = Some (Valid ''/opt/tools/build.sh'', [])"
    by blast
  from walk_ex obtain e where e: "e \<in> set ?walk"
    and ep: "entryPath e = ''/var/www/site/report.txt''"
    and en: "?walk = [e]"
    by (cases ?walk) auto
  from t [of "''/var/www/site''" 1 0] e
  obtain dir allowedPath resolvedAllowed resolvedTarget
    where j: "entryPath e = pathJoin plainSyncEnv dir (entryName e)"
      and m: "allowedPath \<in> set ?allowed"
      and r1: "pathResolve plainSyncEnv allowedPath = Some resolvedAllowed"
      and r2: "pathResolve plainSyncEnv dir = Some resolvedTarget"
      and sw: "startsWith resolvedTarget resolvedAllowed"
    by blast
  have nm: "entryName e = ''report.txt''"
  proof -
    have "map entryName ?walk = [''report.txt'']" by code_simp
    with en show ?thesis by simp
  qed
  from r1 r2 sw have sw': "startsWith dir allowedPath"
    by (simp add: plainSyncEnv_def)
  from j ep nm have "''/var/www/site/report.txt'' = dir @ ''/report.txt''"
    by (simp add: plainSyncEnv_def)
  with m sw' have "\<exists>dir allowedPath. allowedPath \<in> set ?allowed \<and>
      startsWith dir allowedPath \<and> ''/var/www/site/report.txt'' = dir @ ''/report.txt''"
    by blast
  with na empty walk_ex valid show ?thesis by simp
qed

text \<open>
  With the working directory removed a relative path cannot be resolved, and a path
  without \<open>..\<close> is rejected as well.
\<close>

lemma validatePath_unresolved_example:
  "validatePath goneEnv [] ''notes.txt'' = Some (Invalid VALIDATION_ERROR, [])"
  by (subst validatePath.simps) (simp add: goneEnv_def plainEnv_def maxPathLength_def)

section \<open>Properties of the file walker\<close>

lemma scanDirectory_path:
  "f \<in> set (scanDirectory w d exts skips root cur depth) \<Longrightarrow>
     int (length (path f)) + int depth \<le> int (length cur) + d \<and>
     length cur < length (path f) \<and>
     take (length cur) (path f) = cur \<and>
     relativePath f = drop (length root) (path f)"
proof (induction w d exts skips root cur depth rule: scanDirectory.induct)
  case (1 w d exts skips root cur depth)
  let ?visit = "\<lambda>entry.
            (case entry of
              DirEnt nm \<Rightarrow>
                if startsWith nm ''.'' \<and> nm \<noteq> ''.'' then []
                else if toLowerCase nm \<in> set skips then []
                else scanDirectory w d exts skips root (cur @ [nm]) (Suc depth)
            | FileEnt nm \<Rightarrow>
                if exts = [] \<or> toLowerCase (extname nm) \<in> set exts
                then [\<lparr>path = cur @ [nm], name = nm, extension = toLowerCase (extname nm),
                       relativePath = drop (length root) (cur @ [nm]), directory = cur,
                       fileType = getFileType (cur @ [nm])\<rparr>]
                else []
            | OtherEnt nm \<Rightarrow> [])"
  from "1.prems" have mem: "f \<in> set (if int depth \<ge> d then []
      else case readdir w cur of None \<Rightarrow> [] | Some entries \<Rightarrow> concat (map ?visit entries))"
    by (subst (asm) scanDirectory.simps) simp
  then have below: "int depth < d"
    by (cases "int depth \<ge> d") auto
  with mem obtain entries where rd: "readdir w cur = Some entries"
    and mem2: "f \<in> set (concat (map ?visit entries))"
    by (cases "readdir w cur") auto
  then obtain entry where ent: "entry \<in> set entries" and fin: "f \<in> set (?visit entry)"
    by auto
  show ?case
  proof (cases entry)
    case (FileEnt nm)
    with fin have "f = \<lparr>path = cur @ [nm], name = nm, extension = toLowerCase (extname nm),
                       relativePath = drop (length root) (cur @ [nm]), directory = cur,
                       fileType = getFileType (cur @ [nm])\<rparr>"
      by (auto split: if_splits)
    with below show ?thesis by simp
  next
    case (DirEnt nm)
    with fin have notHidden: "\<not> (startsWith nm ''.'' \<and> nm \<noteq> ''.'')"
      and notSkipped: "toLowerCase nm \<notin> set skips"
      and sub: "f \<in> set (scanDirectory w d exts skips root (cur @ [nm]) (Suc depth))"
      by (auto split: if_splits)
    from below have notDeep: "\<not> d \<le> int depth" by simp
    from "1.IH" [OF notDeep rd ent DirEnt notHidden notSkipped sub]
    have ih: "int (length (path f)) + int (Suc depth) \<le> int (length (cur @ [nm])) + d"
      "length (cur @ [nm]) < length (path f)"
      "take (length (cur @ [nm])) (path f) = cur @ [nm]"
      "relativePath f = drop (length root) (path f)"
      by simp_all
    from ih(3) have "take (length cur) (take (length (cur @ [nm])) (path f)) = cur"
      by simp
    then have "take (length cur) (path f) = cur"
      by (simp add: min_def)
    with ih show ?thesis by simp
  next
    case (OtherEnt nm)
    with fin show ?thesis by simp
  qed
qed

text \<open>
  C8: in a walk with \<open>maxDepth = d\<close> every returned entry lies at most \<open>d\<close> directory
  levels below the walk root (in fact fewer than \<open>d\<close>: a directory at depth \<open>d\<close> is not
  read); its path is the root followed by its relative path.
\<close>

theorem getAllFiles_depth:
  assumes "getAllFiles eng w root options = Inr files"
    and "maxDepthOpt options = Some d"
    and "f \<in> set files"
  shows "path f = root @ relativePath f \<and> relativePath f \<noteq> [] \<and>
         int (levelsBelowRoot f) < d \<and> int (levelsBelowRoot f) \<le> d"
proof -
  from assms have "f \<in> set (scanDirectory w d (orDefault (extensionsOpt options) [])
      (defaultSkipDirs @ orDefault (skipDirsOpt options) []) root root 0)"
    by (auto simp: getAllFiles_def orDefault_def split: if_splits)
  from scanDirectory_path [OF this]
  have bound: "int (length (path f)) \<le> int (length root) + d"
    and longer: "length root < length (path f)"
    and pre: "take (length root) (path f) = root"
    and rel: "relativePath f = drop (length root) (path f)"
    by simp_all
  from pre rel have "path f = root @ relativePath f"
    by (metis append_take_drop_id)
  moreover from rel longer have "relativePath f \<noteq> []"
    by simp
  moreover from rel longer bound have "int (levelsBelowRoot f) < d"
    by (simp add: levelsBelowRoot_def)
  ultimately show ?thesis by simp
qed

lemma example_walk:
  "getAllFiles exampleEngine exampleWorld [''srv''] depthTwo = Inr [utilEntry, mainEntry]"
  by code_simp

theorem getAllFiles_depth_witness:
  "getAllFiles exampleEngine exampleWorld [''srv''] depthTwo = Inr [utilEntry, mainEntry] \<and>
   maxDepthOpt depthTwo = Some 2 \<and> utilEntry \<in> set [utilEntry, mainEntry] \<and>
   path utilEntry = [''srv''] @ relativePath utilEntry \<and> relativePath utilEntry \<noteq> [] \<and>
   int (levelsBelowRoot utilEntry) < 2 \<and> int (levelsBelowRoot utilEntry) \<le> 2"
proof -
  have opt: "maxDepthOpt depthTwo = Some 2"
    by (simp add: depthTwo_def)
  have mem: "utilEntry \<in> set [utilEntry, mainEntry]"
    by simp
  from getAllFiles_depth [OF example_walk opt mem] example_walk opt mem show ?thesis
    by simp
qed


section \<open>Properties of batch processing\<close>

lemma splitFrom_concat: "0 < n \<Longrightarrow> concat (splitFrom n files i) = drop i files"
proof (induction n files i rule: splitFrom.induct)
  case (1 n files i)
  show ?case
  proof (cases "i < length files")
    case True
    with "1.prems" "1.IH" have ih: "concat (splitFrom n files (i + n)) = drop (i + n) files"
      by simp
    have "slice files i (i + n) @ drop (i + n) files = drop i files"
      by (simp add: slice_def add.commute [of i n] flip: drop_drop)
    with True "1.prems" ih show ?thesis
      by (subst splitFrom.simps) simp
  next
    case False
    then show ?thesis
      by (subst splitFrom.simps) simp
  qed
qed

lemma splitFrom_sizes:
  "b \<in> set (splitFrom n files i) \<Longrightarrow> 0 < length b \<and> length b \<le> n"
proof (induction n files i rule: splitFrom.induct)
  case (1 n files i)
  from "1.prems" have ok: "i < length files \<and> 0 < n"
    by (subst (asm) splitFrom.simps) (auto split: if_splits)
  with "1.prems" have "b = slice files i (i + n) \<or> b \<in> set (splitFrom n files (i + n))"
    by (subst (asm) splitFrom.simps) auto
  then show ?case
  proof
    assume "b = slice files i (i + n)"
    with ok show ?thesis by (auto simp: slice_def)
  next
    assume "b \<in> set (splitFrom n files (i + n))"
    with "1.IH" ok show ?thesis by simp
  qed
qed

lemma splitFrom_full:
  "b \<in> set (butlast (splitFrom n files i)) \<Longrightarrow> length b = n"
proof (induction n files i rule: splitFrom.induct)
  case (1 n files i)
  from "1.prems" have ok: "i < length files \<and> 0 < n"
    by (subst (asm) splitFrom.simps) (auto split: if_splits)
  then have unfold: "splitFrom n files i = slice files i (i + n) # splitFrom n files (i + n)"
    by (subst splitFrom.simps) simp
  show ?case
  proof (cases "splitFrom n files (i + n) = []")
    case True
    with "1.prems" unfold show ?thesis by simp
  next
    case False
    then have more: "i + n < length files"
      by (subst (asm) splitFrom.simps) (auto split: if_splits)
    from False "1.prems" unfold
    have "b = slice files i (i + n) \<or> b \<in> set (butlast (splitFrom n files (i + n)))"
      by auto
    then show ?thesis
    proof
      assume "b = slice files i (i + n)"
      with more show ?thesis by (simp add: slice_def)
    next
      assume "b \<in> set (butlast (splitFrom n files (i + n)))"
      with "1.IH" ok show ?thesis by simp
    qed
  qed
qed

lemma runBatch_logSearch:
  "runBatch (logSearch g) b st = (concat (map (found g) b), st @ b)"
  by (induction b arbitrary: st) (simp_all add: logSearch_def found_def)

lemma batchLoop_logSearch:
  "\<exists>k \<le> length bs.
     batchLoop (logSearch g) limit rs bs st =
       (rs @ concat (map (found g) (concat (take k bs))), st @ concat (take k bs)) \<and>
     (k < length bs \<longrightarrow> limit \<le> length (rs @ concat (map (found g) (concat (take k bs))))) \<and>
     (\<forall>j. 0 < j \<and> j < k \<longrightarrow> length (rs @ concat (map (found g) (concat (take j bs)))) < limit) \<and>
     (bs \<noteq> [] \<longrightarrow> 0 < k)"
proof (induction bs arbitrary: rs st)
  case Nil
  then show ?case by simp
next
  case (Cons b bs)
  let ?rs' = "rs @ concat (map (found g) b)"
  show ?case
  proof (cases "limit \<le> length ?rs'")
    case True
    then have "batchLoop (logSearch g) limit rs (b # bs) st = (?rs', st @ b)"
      by (simp add: runBatch_logSearch)
    with True show ?thesis
      by (intro exI [of _ 1]) simp
  next
    case False
    from Cons.IH [of ?rs' "st @ b"] obtain k where k: "k \<le> length bs"
      and run: "batchLoop (logSearch g) limit ?rs' bs (st @ b) =
         (?rs' @ concat (map (found g) (concat (take k bs))), (st @ b) @ concat (take k bs))"
      and stop: "k < length bs \<longrightarrow> limit \<le> length (?rs' @ concat (map (found g) (concat (take k bs))))"
      and before: "\<forall>j. 0 < j \<and> j < k \<longrightarrow>
         length (?rs' @ concat (map (found g) (concat (take j bs)))) < limit"
      by blast
    have "\<forall>j. 0 < j \<and> j < Suc k \<longrightarrow>
        length (rs @ concat (map (found g) (concat (take j (b # bs))))) < limit"
    proof (intro allI impI)
      fix j assume j: "0 < j \<and> j < Suc k"
      then obtain j' where j': "j = Suc j'" by (cases j) auto
      show "length (rs @ concat (map (found g) (concat (take j (b # bs))))) < limit"
      proof (cases j')
        case 0
        with j' False show ?thesis by simp
      next
        case (Suc m)
        with j j' before have "length (?rs' @ concat (map (found g) (concat (take j' bs)))) < limit"
          by simp
        with j' show ?thesis by simp
      qed
    qed
    with False k run stop show ?thesis
      by (intro exI [of _ "Suc k"]) (simp add: runBatch_logSearch)
  qed
qed

text \<open>
  C6, amended: the files are cut into consecutive batches of \<open>batchSize\<close> files (the last
  one may be shorter), the batches are searched in order, and the loop stops after the
  first batch at the end of which the running result count has reached the maximum of the
  engine, \<open>this.maxResults\<close>; the maximum the caller asks for in \<open>options\<close> is not read.
  Here \<open>k\<close> is the number of batches searched: the files visited are those of the first
  \<open>k\<close> batches, the count was below the maximum after each earlier batch, and reached it
  if a batch is left over.
\<close>

theorem processFilesInBatches_early_stop:
  assumes "0 < batchSize eng"
  shows "\<exists>k \<le> length (splitFrom (batchSize eng) files 0).
     processFilesInBatches eng files (logSearch g) options [] =
       (concat (map (found g) (concat (take k (splitFrom (batchSize eng) files 0)))),
        concat (take k (splitFrom (batchSize eng) files 0))) \<and>
     (k < length (splitFrom (batchSize eng) files 0) \<longrightarrow>
        maxResults eng \<le> length (concat (map (found g)
           (concat (take k (splitFrom (batchSize eng) files 0)))))) \<and>
     (\<forall>j. 0 < j \<and> j < k \<longrightarrow>
        length (concat (map (found g) (concat (take j (splitFrom (batchSize eng) files 0)))))
          < maxResults eng) \<and>
     (files \<noteq> [] \<longrightarrow> 0 < k) \<and>
     concat (splitFrom (batchSize eng) files 0) = files \<and>
     (\<forall>b \<in> set (splitFrom (batchSize eng) files 0). 0 < length b \<and> length b \<le> batchSize eng) \<and>
     (\<forall>b \<in> set (butlast (splitFrom (batchSize eng) files 0)). length b = batchSize eng)"
proof -
  let ?bs = "splitFrom (batchSize eng) files 0"
  from assms have cat: "concat ?bs = files"
    by (simp add: splitFrom_concat)
  then have ne: "files \<noteq> [] \<longrightarrow> ?bs \<noteq> []"
    by auto
  have sizes: "\<forall>b \<in> set ?bs. 0 < length b \<and> length b \<le> batchSize eng"
    using splitFrom_sizes by blast
  have full: "\<forall>b \<in> set (butlast ?bs). length b = batchSize eng"
    using splitFrom_full by blast
  from batchLoop_logSearch [of ?bs g "maxResults eng" "[]" "[]"] obtain k where
    k: "k \<le> length ?bs"
    and run: "batchLoop (logSearch g) (maxResults eng) [] ?bs [] =
       ([] @ concat (map (found g) (concat (take k ?bs))), [] @ concat (take k ?bs))"
    and stop: "k < length ?bs \<longrightarrow>
       maxResults eng \<le> length ([] @ concat (map (found g) (concat (take k ?bs))))"
    and before: "\<forall>j. 0 < j \<and> j < k \<longrightarrow>
       length ([] @ concat (map (found g) (concat (take j ?bs)))) < maxResults eng"
    and pos: "?bs \<noteq> [] \<longrightarrow> 0 < k"
    by blast
  from run have run': "processFilesInBatches eng files (logSearch g) options [] =
       (concat (map (found g) (concat (take k ?bs))), concat (take k ?bs))"
    by (simp add: processFilesInBatches_def)
  from stop have stop': "k < length ?bs \<longrightarrow>
       maxResults eng \<le> length (concat (map (found g) (concat (take k ?bs))))"
    by simp
  from before have before': "\<forall>j. 0 < j \<and> j < k \<longrightarrow>
       length (concat (map (found g) (concat (take j ?bs)))) < maxResults eng"
    by simp
  from ne pos have pos': "files \<noteq> [] \<longrightarrow> 0 < k"
    by blast
  from k run' stop' before' pos' cat sizes full show ?thesis
    by blast
qed

theorem processFilesInBatches_early_stop_witness:
  "0 < batchSize exampleEngine \<and>
   (\<exists>k \<le> length (splitFrom (batchSize exampleEngine) [1, 2, 3, 4, 5, 6, 7 :: nat] 0).
     processFilesInBatches exampleEngine [1, 2, 3, 4, 5, 6, 7] (logSearch oneEach) oneResult [] =
       (concat (map (found oneEach)
          (concat (take k (splitFrom (batchSize exampleEngine) [1, 2, 3, 4, 5, 6, 7] 0)))),
        concat (take k (splitFrom (batchSize exampleEngine) [1, 2, 3, 4, 5, 6, 7] 0))) \<and>
     (k < length (splitFrom (batchSize exampleEngine) [1, 2, 3, 4, 5, 6, 7 :: nat] 0) \<longrightarrow>
        maxResults exampleEngine \<le> length (concat (map (found oneEach)
           (concat (take k (splitFrom (batchSize exampleEngine) [1, 2, 3, 4, 5, 6, 7] 0)))))) \<and>
     (\<forall>j. 0 < j \<and> j < k \<longrightarrow>
        length (concat (map (found oneEach)
           (concat (take j (splitFrom (batchSize exampleEngine) [1, 2, 3, 4, 5, 6, 7] 0)))))
          < maxResults exampleEngine) \<and>
     ([1, 2, 3, 4, 5, 6, 7 :: nat] \<noteq> [] \<longrightarrow> 0 < k) \<and>
     concat (splitFrom (batchSize exampleEngine) [1, 2, 3, 4, 5, 6, 7 :: nat] 0)
       = [1, 2, 3, 4, 5, 6, 7] \<and>
     (\<forall>b \<in> set (splitFrom (batchSize exampleEngine) [1, 2, 3, 4, 5, 6, 7 :: nat] 0).
        0 < length b \<and> length b \<le> batchSize exampleEngine) \<and>
     (\<forall>b \<in> set (butlast (splitFrom (batchSize exampleEngine) [1, 2, 3, 4, 5, 6, 7 :: nat] 0)).
        length b = batchSize exampleEngine)) \<and>
   processFilesInBatches exampleEngine [1, 2, 3, 4, 5, 6, 7 :: nat] (logSearch oneEach) oneResult []
     = ([1, 2, 3, 4, 5, 6], [1, 2, 3, 4, 5, 6])"
proof (intro conjI)
  show pos: "0 < batchSize exampleEngine"
    by (simp add: exampleEngine_def)
  from processFilesInBatches_early_stop [OF pos, of "[1, 2, 3, 4, 5, 6, 7 :: nat]" oneEach oneResult]
  show "\<exists>k \<le> length (splitFrom (batchSize exampleEngine) [1, 2, 3, 4, 5, 6, 7 :: nat] 0).
     processFilesInBatches exampleEngine [1, 2, 3, 4, 5, 6, 7] (logSearch oneEach) oneResult [] =
       (concat (map (found oneEach)
          (concat (take k (splitFrom (batchSize exampleEngine) [1, 2, 3, 4, 5, 6, 7] 0)))),
        concat (take k (splitFrom (batchSize exampleEngine) [1, 2, 3, 4, 5, 6, 7] 0))) \<and>
     (k < length (splitFrom (batchSize exampleEngine) [1, 2, 3, 4, 5, 6, 7 :: nat] 0) \<longrightarrow>
        maxResults exampleEngine \<le> length (concat (map (found oneEach)
           (concat (take k (splitFrom (batchSize exampleEngine) [1, 2, 3, 4, 5, 6, 7] 0)))))) \<and>
     (\<forall>j. 0 < j \<and> j < k \<longrightarrow>
        length (concat (map (found oneEach)
           (concat (take j (splitFrom (batchSize exampleEngine) [1, 2, 3, 4, 5, 6, 7] 0)))))
          < maxResults exampleEngine) \<and>
     ([1, 2, 3, 4, 5, 6, 7 :: nat] \<noteq> [] \<longrightarrow> 0 < k) \<and>
     concat (splitFrom (batchSize exampleEngine) [1, 2, 3, 4, 5, 6, 7 :: nat] 0)
       = [1, 2, 3, 4, 5, 6, 7] \<and>
     (\<forall>b \<in> set (splitFrom (batchSize exampleEngine) [1, 2, 3, 4, 5, 6, 7 :: nat] 0).
        0 < length b \<and> length b \<le> batchSize exampleEngine) \<and>
     (\<forall>b \<in> set (butlast (splitFrom (batchSize exampleEngine) [1, 2, 3, 4, 5, 6, 7 :: nat] 0)).
        length b = batchSize exampleEngine)" .
  show "processFilesInBatches exampleEngine [1, 2, 3, 4, 5, 6, 7 :: nat] (logSearch oneEach)
      oneResult [] = ([1, 2, 3, 4, 5, 6], [1, 2, 3, 4, 5, 6])"
    by code_simp
qed

text \<open>
  C6, as stated, fails: the caller asks for at most one result, the first batch already
  yields one, and the two remaining batches are searched all the same, because the maximum
  of the engine (five) has not been reached.
\<close>

theorem processFilesInBatches_caller_maximum_counterexample:
  "maxResultsOpt oneResult = Some 1 \<and> maxResults smallBatches = 5 \<and>
   processFilesInBatches smallBatches [1, 2, 3 :: nat] (logSearch oneEach) oneResult []
     = ([1, 2, 3], [1, 2, 3])"
proof (intro conjI)
  show "maxResultsOpt oneResult = Some 1"
    by (simp add: oneResult_def)
  show "maxResults smallBatches = 5"
    by (simp add: smallBatches_def)
  show "processFilesInBatches smallBatches [1, 2, 3 :: nat] (logSearch oneEach) oneResult []
     = ([1, 2, 3], [1, 2, 3])"
    by code_simp
qed

section \<open>Properties of the search results\<close>

lemma set_insertBy: "set (insertBy cmp x ys) = insert x (set ys)"
  by (induction ys) auto

lemma distinct_insertBy:
  "distinct (map f (insertBy cmp x ys)) \<longleftrightarrow> f x \<notin> f ` set ys \<and> distinct (map f ys)"
  by (induction ys) (auto simp: set_insertBy)

lemma set_jsSort: "set (jsSort cmp xs) = set xs"
  by (induction xs) (simp_all add: jsSort_def set_insertBy)

lemma distinct_jsSort: "distinct (map f (jsSort cmp xs)) \<longleftrightarrow> distinct (map f xs)"
proof (induction xs)
  case Nil
  then show ?case by (simp add: jsSort_def)
next
  case (Cons x xs)
  have "jsSort cmp (x # xs) = insertBy cmp x (jsSort cmp xs)"
    by (simp add: jsSort_def)
  with Cons show ?case
    by (simp add: distinct_insertBy set_jsSort)
qed

lemma length_jsSort: "length (jsSort cmp xs) = length xs"
proof (induction xs)
  case Nil
  then show ?case by (simp add: jsSort_def)
next
  case (Cons x xs)
  have "length (insertBy cmp x ys) = Suc (length ys)" for ys
    by (induction ys) auto
  with Cons show ?case by (simp add: jsSort_def)
qed

lemma sorted_insertBy:
  assumes total: "\<And>x y. cmp x y \<le> 0 \<or> cmp y x \<le> 0"
    and trans: "\<And>x y z. cmp x y \<le> 0 \<Longrightarrow> cmp y z \<le> 0 \<Longrightarrow> cmp x z \<le> 0"
    and sorted: "sorted_wrt (\<lambda>a b. cmp a b \<le> 0) ys"
  shows "sorted_wrt (\<lambda>a b. cmp a b \<le> 0) (insertBy cmp x ys)"
  using sorted
proof (induction ys)
  case Nil
  then show ?case by simp
next
  case (Cons y ys)
  show ?case
  proof (cases "cmp x y \<le> 0")
    case True
    with Cons.prems trans have "\<forall>z \<in> set ys. cmp x z \<le> 0"
      by auto
    with True Cons.prems show ?thesis by simp
  next
    case False
    with total have "cmp y x \<le> 0" by blast
    with False Cons show ?thesis
      by (auto simp: set_insertBy)
  qed
qed

lemma sorted_jsSort:
  assumes total: "\<And>x y. cmp x y \<le> 0 \<or> cmp y x \<le> 0"
    and trans: "\<And>x y z. cmp x y \<le> 0 \<Longrightarrow> cmp y z \<le> 0 \<Longrightarrow> cmp x z \<le> 0"
  shows "sorted_wrt (\<lambda>a b. cmp a b \<le> 0) (jsSort cmp xs)"
proof (induction xs)
  case Nil
  then show ?case by (simp add: jsSort_def)
next
  case (Cons x xs)
  then have "sorted_wrt (\<lambda>a b. cmp a b \<le> 0) (foldr (insertBy cmp) xs [])"
    by (simp add: jsSort_def)
  from sorted_insertBy [of cmp, OF total trans this] show ?case
    by (simp add: jsSort_def)
qed

lemma compareResults_ranked: "compareResults collate a b \<le> 0 \<longleftrightarrow> ranked collate a b"
  by (auto simp: compareResults_def localeCompare_def ranked_def)

lemma sorted_wrt_take: "sorted_wrt P xs \<Longrightarrow> sorted_wrt P (take n xs)"
proof (induction xs arbitrary: n)
  case Nil
  then show ?case by simp
next
  case (Cons x xs)
  show ?case
  proof (cases n)
    case 0
    then show ?thesis by simp
  next
    case (Suc m)
    with Cons show ?thesis
      by (auto dest: in_set_takeD)
  qed
qed

lemma sorted_results: "sorted_wrt (ranked collate) (jsSort (compareResults collate) rs)"
proof -
  have "sorted_wrt (\<lambda>a b. compareResults collate a b \<le> 0) (jsSort (compareResults collate) rs)"
  proof (rule sorted_jsSort)
    fix x y :: searchResult
    show "compareResults collate x y \<le> 0 \<or> compareResults collate y x \<le> 0"
      by (auto simp: compareResults_ranked ranked_def)
  next
    fix x y z :: searchResult
    assume "compareResults collate x y \<le> 0" and "compareResults collate y z \<le> 0"
    then show "compareResults collate x z \<le> 0"
      by (auto simp: compareResults_ranked ranked_def)
  qed
  then show ?thesis
    by (simp add: compareResults_ranked [abs_def])
qed

text \<open>One result per line out of the map.\<close>

lemma mapSet_keys:
  "map fst (mapSet k v m) = (if k \<in> fst ` set m then map fst m else map fst m @ [k])"
  by (induction m) (auto simp: rev_image_eqI)

lemma mapSet_line:
  "\<forall>(k, v) \<in> set m. k = line v \<Longrightarrow> \<forall>(k, v) \<in> set (mapSet (line r) r m). k = line v"
  by (induction m) (auto split: if_splits)

lemma uniqueByLine_aux:
  "distinct (map fst m) \<Longrightarrow> \<forall>(k, v) \<in> set m. k = line v \<Longrightarrow>
   distinct (map fst (foldl (\<lambda>m result.
              case map_of m (line result) of
                None \<Rightarrow> mapSet (line result) result m
              | Some existing \<Rightarrow>
                  if relevanceScore existing < relevanceScore result
                  then mapSet (line result) result m else m) m results)) \<and>
   (\<forall>(k, v) \<in> set (foldl (\<lambda>m result.
              case map_of m (line result) of
                None \<Rightarrow> mapSet (line result) result m
              | Some existing \<Rightarrow>
                  if relevanceScore existing < relevanceScore result
                  then mapSet (line result) result m else m) m results). k = line v)"
proof (induction results arbitrary: m)
  case Nil
  then show ?case by simp
next
  case (Cons r rs)
  let ?m' = "case map_of m (line r) of
                None \<Rightarrow> mapSet (line r) r m
              | Some existing \<Rightarrow>
                  if relevanceScore existing < relevanceScore r
                  then mapSet (line r) r m else m"
  from Cons.prems have d: "distinct (map fst (mapSet (line r) r m))"
    by (simp add: mapSet_keys)
  from Cons.prems have l: "\<forall>(k, v) \<in> set (mapSet (line r) r m). k = line v"
    by (intro mapSet_line)
  from d l Cons.prems have "distinct (map fst ?m') \<and> (\<forall>(k, v) \<in> set ?m'. k = line v)"
    by (auto split: option.splits)
  with Cons.IH [of ?m'] show ?case
    by simp
qed

lemma distinct_lines_dedup: "distinct (map line (deduplicateAndScore results))"
proof -
  from uniqueByLine_aux [of "[]" results]
  have d: "distinct (map fst (uniqueByLine results))"
    and l: "\<forall>(k, v) \<in> set (uniqueByLine results). k = line v"
    by (simp_all add: uniqueByLine_def)
  from l have "map fst (uniqueByLine results) = map line (map snd (uniqueByLine results))"
    by auto
  with d have "distinct (map line (map snd (uniqueByLine results)))"
    by simp
  then show ?thesis
    by (simp add: deduplicateAndScore_def distinct_jsSort)
qed

lemma fst_smartSearchInFile:
  "fst (smartSearchInFile eng w p query cs mm ctx st) = fst (smartSearchInFile eng w p query cs mm ctx 0)"
  by (simp add: smartSearchInFile_def split: option.splits)

lemma distinct_smartSearchInFile:
  "distinct (map line (fst (smartSearchInFile eng w p query cs mm ctx st)))"
  by (simp add: smartSearchInFile_def distinct_lines_dedup take_map [symmetric] split: option.splits)

lemma fst_searchFunction:
  "fst (searchFunction eng w query cs ctx f st) = Some (fileResults eng w query cs ctx f)"
  using fst_smartSearchInFile [of eng w "path f" query cs 3 ctx st]
  by (cases "smartSearchInFile eng w (path f) query cs 3 ctx st")
     (simp add: searchFunction_def fileResults_def)

lemma fileLine_withFile: "fileLine (withFile f r) = (relativePath f, line r)"
  by (simp add: fileLine_def withFile_def searchMatch.defs searchResult.defs)

lemma runBatch_pure:
  assumes "\<And>x st. fst (sf x st) = Some (g x)"
  shows "fst (runBatch sf b st) = concat (map g b)"
proof (induction b arbitrary: st)
  case Nil
  then show ?case by simp
next
  case (Cons x b)
  obtain r st1 where sf: "sf x st = (r, st1)"
    by (cases "sf x st")
  obtain rs st2 where rb: "runBatch sf b st1 = (rs, st2)"
    by (cases "runBatch sf b st1")
  from assms [of x st] sf have "r = Some (g x)"
    by simp
  moreover from Cons [of st1] rb have "rs = concat (map g b)"
    by simp
  ultimately show ?case
    using sf rb by (simp add: orDefault_def)
qed

lemma batchLoop_pure:
  assumes "\<And>x st. fst (sf x st) = Some (g x)"
  shows "\<exists>k. fst (batchLoop sf limit rs bs st) = rs @ concat (map g (concat (take k bs)))"
proof (induction bs arbitrary: rs st)
  case Nil
  then show ?case by simp
next
  case (Cons b bs)
  obtain br st' where rb: "runBatch sf b st = (br, st')"
    by (cases "runBatch sf b st")
  with runBatch_pure [of sf g b st, OF assms] have br: "br = concat (map g b)"
    by simp
  show ?case
  proof (cases "limit \<le> length (rs @ br)")
    case True
    with rb br have "fst (batchLoop sf limit rs (b # bs) st) = rs @ concat (map g (concat (take 1 (b # bs))))"
      by simp
    then show ?thesis by blast
  next
    case False
    from Cons [of "rs @ br" st'] obtain k where
      "fst (batchLoop sf limit (rs @ br) bs st') = (rs @ br) @ concat (map g (concat (take k bs)))"
      by blast
    with False rb br have "fst (batchLoop sf limit rs (b # bs) st) = rs @ concat (map g (concat (take (Suc k) (b # bs))))"
      by simp
    then show ?thesis by blast
  qed
qed

lemma fileResults_file:
  "r \<in> set (fileResults eng w query cs ctx f) \<Longrightarrow> fst (fileLine r) = relativePath f"
  by (auto simp: fileResults_def fileLine_withFile)

lemma distinct_fileResults:
  assumes "distinct (map relativePath fs)"
  shows "distinct (map fileLine (concat (map (fileResults eng w query cs ctx) fs)))"
  using assms
proof (induction fs)
  case Nil
  then show ?case by simp
next
  case (Cons f fs)
  let ?own = "fileResults eng w query cs ctx f"
  let ?rest = "concat (map (fileResults eng w query cs ctx) fs)"
  have own: "map fileLine ?own
      = map (Pair (relativePath f)) (map line (fst (smartSearchInFile eng w (path f) query cs 3 ctx 0)))"
    by (simp add: fileResults_def fileLine_withFile)
  have "inj (Pair (relativePath f))"
    by (simp add: inj_on_def)
  then have "distinct (map (Pair (relativePath f))
      (map line (fst (smartSearchInFile eng w (path f) query cs 3 ctx 0))))"
    using distinct_smartSearchInFile [of eng w "path f" query cs 3 ctx 0]
    by (subst distinct_map) (simp add: inj_on_def)
  with own have d1: "distinct (map fileLine ?own)"
    by simp
  have disj: "set (map fileLine ?own) \<inter> set (map fileLine ?rest) = {}"
  proof (rule ccontr)
    assume "set (map fileLine ?own) \<inter> set (map fileLine ?rest) \<noteq> {}"
    then obtain x where x1: "x \<in> set (map fileLine ?own)" and x2: "x \<in> set (map fileLine ?rest)"
      by blast
    from x1 obtain r where "r \<in> set ?own" and "x = fileLine r"
      by auto
    then have fx: "fst x = relativePath f"
      by (simp add: fileResults_file)
    from x2 obtain r' where "r' \<in> set ?rest" and xr': "x = fileLine r'"
      by auto
    then obtain f' where f': "f' \<in> set fs" and "r' \<in> set (fileResults eng w query cs ctx f')"
      by auto
    with xr' have "fst x = relativePath f'"
      by (simp add: fileResults_file)
    with fx have "relativePath f = relativePath f'"
      by simp
    with f' have "relativePath f \<in> relativePath ` set fs"
      by (rule_tac image_eqI)
    with Cons.prems show False
      by simp
  qed
  from Cons have "distinct (map fileLine ?rest)"
    by simp
  with d1 disj show ?case
    by simp
qed

lemma distinct_prefix_batches:
  assumes "distinct (map f (concat bs))"
  shows "distinct (map f (concat (take k bs)))"
proof -
  have "concat bs = concat (take k bs) @ concat (drop k bs)"
    by (metis append_take_drop_id concat_append)
  with assms show ?thesis
    by simp
qed

text \<open>
  The loop over the file types throws exactly when the list holds an inherited name; so
  \<open>filterFilesByType\<close> throws exactly when the list is not safe.
\<close>

lemma allowedTypes_Inl:
  "allowedTypes keep fileTys allowed = Inl failure \<Longrightarrow>
     failure = TypeError \<and> \<not> list_all (\<lambda>ty. typeLookup ty \<noteq> Inherited) fileTys"
  by (induction fileTys arbitrary: allowed) (auto split: typeEntry.splits)

lemma allowedTypes_Inr:
  "allowedTypes keep fileTys allowed = Inr result \<Longrightarrow>
     list_all (\<lambda>ty. typeLookup ty \<noteq> Inherited) fileTys"
  by (induction fileTys arbitrary: allowed) (auto split: typeEntry.splits)

lemma filterFilesByType_Inl:
  "filterFilesByType files fileTys = Inl failure \<Longrightarrow> failure = TypeError \<and> \<not> typesSafe fileTys"
  using allowedTypes_Inl [of True fileTys "[]" failure]
  by (auto simp: filterFilesByType_def typesSafe_def split: if_splits sum.splits)

lemma filterFilesByType_Inr:
  "filterFilesByType files fileTys = Inr filtered \<Longrightarrow> typesSafe fileTys"
  using allowedTypes_Inr [of True fileTys "[]"]
  by (auto simp: filterFilesByType_def typesSafe_def split: if_splits sum.splits)

text \<open>
  C1, amended: a search with the ceiling \<open>maxResults = N\<close> either throws the \<open>TypeError\<close>
  of an inherited name among the file types, or returns at most \<open>N\<close> results, sorted by
  score descending and then by file path ascending, no two of which share the pair of
  file and line provided the files collected from the roots have pairwise distinct
  relative paths.
\<close>

theorem smartSearch_bounded_ranked:
  assumes "maxResultsOpt options = Some N" and "0 < batchSize eng"
  shows "(case smartSearch eng w collate query searchPaths options of
            Inl failure \<Rightarrow>
              failure = TypeError \<and> \<not> typesSafe (orDefault (fileTypes options) [''all''])
          | Inr (results, processed) \<Rightarrow>
              typesSafe (orDefault (fileTypes options) [''all'']) \<and>
              length results \<le> N \<and>
              sorted_wrt (ranked collate) results \<and>
              (distinct (map relativePath
                  (collectFiles eng w searchPaths (orDefault (fileTypes options) [''all''])
                     (orDefault (excludePatterns options) []))) \<longrightarrow>
               distinct (map fileLine results)))"
proof -
  let ?fileTys = "orDefault (fileTypes options) [''all'']"
  let ?excl = "orDefault (excludePatterns options) []"
  let ?maxFiles = "orDefault (maxFilesOpt options) (maxFilesToProcess eng)"
  let ?cs = "orDefault (caseSensitiveOpt options) False"
  let ?ctx = "orDefault (contextLinesOpt options) 3"
  let ?allFiles = "collectFiles eng w searchPaths ?fileTys ?excl"
  let ?files = "take ?maxFiles ?allFiles"
  let ?bs = "splitFrom (batchSize eng) ?files 0"
  let ?all = "fst (processFilesInBatches eng ?files (searchFunction eng w query ?cs ?ctx) options 0)"
  show ?thesis
  proof (cases "filterFilesByType ?allFiles ?fileTys")
    case (Inl failure)
    then have "smartSearch eng w collate query searchPaths options = Inl failure"
      by (simp add: smartSearch_def Let_def)
    with filterFilesByType_Inl [OF Inl] show ?thesis
      by simp
  next
    case (Inr filtered)
    from filterFilesByType_Inr [OF Inr] have safe: "typesSafe ?fileTys" .
    define results where "results =
      (if filtered = [] then [] else take N (take N (jsSort (compareResults collate) ?all)))"
    define processed where "processed =
      (if filtered = [] then 0
       else snd (processFilesInBatches eng ?files (searchFunction eng w query ?cs ?ctx) options 0))"
    from Inr assms(1)
    have sm: "smartSearch eng w collate query searchPaths options = Inr (results, processed)"
      by (simp add: smartSearch_def Let_def results_def processed_def orDefault_def
          split: prod.splits)
    have res: "results = [] \<or> results = take N (take N (jsSort (compareResults collate) ?all))"
      by (simp add: results_def)
    from res have len: "length results \<le> N"
      by (elim disjE) simp_all
    have "sorted_wrt (ranked collate) (take N (take N (jsSort (compareResults collate) ?all)))"
      by (intro sorted_wrt_take sorted_results)
    with res have srt: "sorted_wrt (ranked collate) results"
      by (elim disjE) simp_all
    have dst: "distinct (map fileLine results)" if d: "distinct (map relativePath ?allFiles)"
    proof -
      from batchLoop_pure [of "searchFunction eng w query ?cs ?ctx" "fileResults eng w query ?cs ?ctx"
          "maxResults eng" "[]" ?bs 0, OF fst_searchFunction]
      obtain k where k: "?all = concat (map (fileResults eng w query ?cs ?ctx) (concat (take k ?bs)))"
        by (auto simp: processFilesInBatches_def)
      from d have "distinct (map relativePath ?files)"
        by (simp add: take_map [symmetric])
      with assms(2) have "distinct (map relativePath (concat ?bs))"
        by (simp add: splitFrom_concat)
      then have "distinct (map relativePath (concat (take k ?bs)))"
        by (rule distinct_prefix_batches)
      with k have "distinct (map fileLine ?all)"
        by (simp add: distinct_fileResults)
      then have "distinct (map fileLine (take N (take N (jsSort (compareResults collate) ?all))))"
        by (simp add: take_map [symmetric] distinct_jsSort)
      with res show ?thesis
        by (elim disjE) simp_all
    qed
    from safe len srt dst show ?thesis
      unfolding sm by simp
  qed
qed

lemma example_collect:
  "distinct (map relativePath
     (collectFiles exampleEngine exampleWorld [[''srv'']]
        (orDefault (fileTypes twoResults) [''all'']) (orDefault (excludePatterns twoResults) [])))"
  by code_simp

theorem smartSearch_bounded_ranked_witness:
  "maxResultsOpt twoResults = Some 2 \<and> 0 < batchSize exampleEngine \<and>
   distinct (map relativePath
     (collectFiles exampleEngine exampleWorld [[''srv'']]
        (orDefault (fileTypes twoResults) [''all'']) (orDefault (excludePatterns twoResults) []))) \<and>
   (case smartSearch exampleEngine exampleWorld relativeString ''needle'' [[''srv'']] twoResults of
      Inl failure \<Rightarrow> False
    | Inr (results, processed) \<Rightarrow>
        length results \<le> 2 \<and> sorted_wrt (ranked relativeString) results \<and>
        distinct (map fileLine results))"
proof -
  have opt: "maxResultsOpt twoResults = Some 2"
    by (simp add: twoResults_def)
  have pos: "0 < batchSize exampleEngine"
    by (simp add: exampleEngine_def)
  have safe: "typesSafe (orDefault (fileTypes twoResults) [''all''])"
    by (simp add: twoResults_def orDefault_def typesSafe_def)
  from smartSearch_bounded_ranked [OF opt pos, where w = exampleWorld and collate = relativeString
      and query = "''needle''" and searchPaths = "[[''srv'']]"]
    safe example_collect
  have "(case smartSearch exampleEngine exampleWorld relativeString ''needle'' [[''srv'']] twoResults of
      Inl failure \<Rightarrow> False
    | Inr (results, processed) \<Rightarrow>
        length results \<le> 2 \<and> sorted_wrt (ranked relativeString) results \<and>
        distinct (map fileLine results))"
    by (cases "smartSearch exampleEngine exampleWorld relativeString ''needle'' [[''srv'']] twoResults")
      auto
  with opt pos example_collect show ?thesis
    by blast
qed

text \<open>
  C1, as stated, fails on the last part: when the root \<open>/srv\<close> is listed twice, every file
  is collected twice and the same pair of file and line is returned twice.
\<close>

theorem smartSearch_duplicates_counterexample:
  "maxResultsOpt fiveResults = Some 5 \<and>
   (case smartSearch exampleEngine exampleWorld relativeString ''needle''
           [[''srv''], [''srv'']] fiveResults of
      Inl failure \<Rightarrow> []
    | Inr (results, processed) \<Rightarrow> map fileLine results) =
     [([''lib'', ''deep'', ''far.js''], 1), ([''lib'', ''deep'', ''far.js''], 1),
      ([''lib'', ''util.js''], 1), ([''lib'', ''util.js''], 1), ([''main.js''], 1)]"
proof
  show "maxResultsOpt fiveResults = Some 5"
    by (simp add: fiveResults_def)
  show "(case smartSearch exampleEngine exampleWorld relativeString ''needle''
           [[''srv''], [''srv'']] fiveResults of
      Inl failure \<Rightarrow> []
    | Inr (results, processed) \<Rightarrow> map fileLine results) =
     [([''lib'', ''deep'', ''far.js''], 1), ([''lib'', ''deep'', ''far.js''], 1),
      ([''lib'', ''util.js''], 1), ([''lib'', ''util.js''], 1), ([''main.js''], 1)]"
    by code_simp
qed

section \<open>Properties of log normalization\<close>

lemma normalize_percent_S: "normalizeLogText ''%S'' Moderate = ''%s''"
  by code_simp

lemma normalize_percent_s: "normalizeLogText ''%s'' Moderate = ''placeholder''"
  by code_simp

text \<open>
  C4, as stated, fails: the placeholder \<open>%S\<close> is not replaced (the class is case sensitive)
  but is folded to \<open>%s\<close>, which a second normalization replaces.
\<close>

theorem normalize_not_idempotent_counterexample:
  "normalizeLogText (normalizeLogText ''%S'' Moderate) Moderate \<noteq> normalizeLogText ''%S'' Moderate"
  by (simp add: normalize_percent_S normalize_percent_s)

text \<open>
  C4, amended: on the example line the replacements put the token \<open>IP\<close> for the address
  and \<open>TIMESTAMP\<close> for the timestamp and keep \<open>404\<close>; after case folding the result is
  \<open>user ip failed at timestamp code=404\<close>, and normalizing this result again changes
  nothing.  Idempotence is not claimed for every string.
\<close>

theorem normalize_example:
  "fold (\<lambda>step text. step text) (take 17 moderateSteps) exampleLog
     = ''User IP failed at TIMESTAMP code=404'' \<and>
   normalizeLogText exampleLog Moderate = ''user ip failed at timestamp code=404'' \<and>
   normalizeLogText (normalizeLogText exampleLog Moderate) Moderate
     = normalizeLogText exampleLog Moderate"
proof (intro conjI)
  show "fold (\<lambda>step text. step text) (take 17 moderateSteps) exampleLog
     = ''User IP failed at TIMESTAMP code=404''"
    by code_simp
  show first: "normalizeLogText exampleLog Moderate = ''user ip failed at timestamp code=404''"
    by code_simp
  have "normalizeLogText ''user ip failed at timestamp code=404'' Moderate
      = ''user ip failed at timestamp code=404''"
    by code_simp
  with first show "normalizeLogText (normalizeLogText exampleLog Moderate) Moderate
     = normalizeLogText exampleLog Moderate"
    by simp
qed

section \<open>Properties of matching\<close>

lemma startsWith_short: "length s < length p \<Longrightarrow> \<not> startsWith s p"
  by (induction s p rule: startsWith.induct) auto

lemma indexOfFrom_None:
  "indexOfFrom s p i = None \<Longrightarrow> p \<noteq> [] \<Longrightarrow> i \<le> j \<Longrightarrow> \<not> startsWith (drop j s) p"
proof (induction s p i rule: indexOfFrom.induct)
  case (1 s p i)
  from "1.prems" have unf:
    "(if length s < i + length p then None
      else if startsWith (drop i s) p then Some i
      else indexOfFrom s p (Suc i)) = None"
    by (subst (asm) indexOfFrom.simps) simp
  show ?case
  proof (cases "length s < i + length p")
    case True
    moreover from "1.prems"(2) have "0 < length p" by simp
    ultimately have "length s - j < length p" using "1.prems"(3) by arith
    then have "length (drop j s) < length p" by simp
    then show ?thesis by (rule startsWith_short)
  next
    case False
    with unf have here: "\<not> startsWith (drop i s) p" and nxt: "indexOfFrom s p (Suc i) = None"
      by (auto split: if_splits)
    show ?thesis
    proof (cases "j = i")
      case True
      with here show ?thesis by simp
    next
      case False
      with "1.prems"(3) have "Suc i \<le> j" by simp
      from "1.IH" [OF "1.prems"(2) \<open>\<not> length s < i + length p\<close> here nxt "1.prems"(2) this]
      show ?thesis .
    qed
  qed
qed

lemma indexOfFrom_Some:
  "indexOfFrom s p i = Some k \<Longrightarrow> p \<noteq> [] \<Longrightarrow>
     startsWith (drop k s) p \<and> (\<forall>j. i \<le> j \<and> j < k \<longrightarrow> \<not> startsWith (drop j s) p)"
proof (induction s p i rule: indexOfFrom.induct)
  case (1 s p i)
  from "1.prems" have unf:
    "(if length s < i + length p then None
      else if startsWith (drop i s) p then Some i
      else indexOfFrom s p (Suc i)) = Some k"
    by (subst (asm) indexOfFrom.simps) simp
  then have inRange: "\<not> length s < i + length p"
    by (auto split: if_splits)
  show ?case
  proof (cases "startsWith (drop i s) p")
    case True
    with unf inRange have "k = i" by simp
    with True show ?thesis by auto
  next
    case False
    with unf inRange have nxt: "indexOfFrom s p (Suc i) = Some k" by simp
    from "1.IH" [OF "1.prems"(2) inRange False nxt "1.prems"(2)]
    have ih: "startsWith (drop k s) p" "\<forall>j. Suc i \<le> j \<and> j < k \<longrightarrow> \<not> startsWith (drop j s) p"
      by simp_all
    have "\<not> startsWith (drop j s) p" if "i \<le> j \<and> j < k" for j
    proof (cases "j = i")
      case True
      with False show ?thesis by simp
    next
      case False
      with that ih(2) show ?thesis by simp
    qed
    with ih(1) show ?thesis by blast
  qed
qed

lemma filter_upt_none:
  "(\<And>j. i \<le> j \<Longrightarrow> j < n \<Longrightarrow> \<not> P j) \<Longrightarrow> filter P [i..<n] = []"
  by (simp add: filter_empty_conv)

lemma filter_upt_first:
  assumes "i \<le> k" and "k < n" and "P k" and "\<And>j. i \<le> j \<Longrightarrow> j < k \<Longrightarrow> \<not> P j"
  shows "filter P [i..<n] = k # filter P [Suc k..<n]"
proof -
  from assms(1,2) have "[i..<n] = [i..<k] @ k # [Suc k..<n]"
    by (metis le_Suc_ex less_imp_le_nat upt_add_eq_append upt_conv_Cons)
  moreover from assms(4) have "filter P [i..<k] = []"
    by (simp add: filter_empty_conv)
  ultimately show ?thesis
    using assms(3) by simp
qed

lemma literalLoop_occurrences:
  assumes "p \<noteq> []"
  shows "literalLoop s p (indexOfFrom s p i) = filter (\<lambda>k. startsWith (drop k s) p) [i..<length s]"
proof (induction "length s - i" arbitrary: i rule: less_induct)
  case less
  show ?case
  proof (cases "indexOfFrom s p i")
    case None
    have "\<not> startsWith (drop j s) p" if "i \<le> j" for j
      using indexOfFrom_None [OF None assms that] .
    then have "filter (\<lambda>k. startsWith (drop k s) p) [i..<length s] = []"
      by (simp add: filter_empty_conv)
    with None show ?thesis
      by (simp add: literalLoop.simps)
  next
    case (Some k)
    from indexOfFrom_bounds [OF Some assms] have range: "i \<le> k" "k < length s"
      by simp_all
    from indexOfFrom_Some [OF Some assms]
    have hit: "startsWith (drop k s) p"
      and miss: "\<And>j. i \<le> j \<Longrightarrow> j < k \<Longrightarrow> \<not> startsWith (drop j s) p"
      by simp_all
    from range have "length s - Suc k < length s - i"
      by simp
    from less [OF this]
    have ih: "literalLoop s p (indexOfFrom s p (Suc k))
        = filter (\<lambda>k. startsWith (drop k s) p) [Suc k..<length s]" .
    from filter_upt_first [of i k "length s" "\<lambda>k. startsWith (drop k s) p", OF range hit miss]
    have "filter (\<lambda>k. startsWith (drop k s) p) [i..<length s]
        = k # filter (\<lambda>k. startsWith (drop k s) p) [Suc k..<length s]"
      by simp
    with Some assms ih show ?thesis
      by (simp add: literalLoop.simps)
  qed
qed

text \<open>
  C7: matching is regex first: when \<open>RegExp\<close> accepts the pattern the matches are those
  of the expression.  When it throws, the result is the literal substring search over the
  same text: one match for every index at which the (case-folded) pattern occurs in the
  (case-folded) content, in increasing order.  \<open>findMatches\<close> has no other outcome, so a
  malformed pattern never leaves it as an exception.
\<close>

theorem findMatches_fallback:
  "(\<forall>regex. regExp w (pattern patInfo) = Some regex \<longrightarrow>
      findMatches w content lines patInfo caseSensitive contextLines =
        map (\<lambda>(index, txt). mkMatch content lines patInfo contextLines index txt)
          (rxMatchAll regex (\<not> caseSensitive) None content 0)) \<and>
   (regExp w (pattern patInfo) = None \<longrightarrow>
      findMatches w content lines patInfo caseSensitive contextLines =
        map (\<lambda>index. mkMatch content lines patInfo contextLines index
               (take (length (pattern patInfo)) (drop index content)))
          (occurrences (foldCase caseSensitive content) (foldCase caseSensitive (pattern patInfo))))"
proof (intro conjI allI impI)
  fix regex
  assume "regExp w (pattern patInfo) = Some regex"
  then show "findMatches w content lines patInfo caseSensitive contextLines =
        map (\<lambda>(index, txt). mkMatch content lines patInfo contextLines index txt)
          (rxMatchAll regex (\<not> caseSensitive) None content 0)"
    by (simp add: findMatches_def)
next
  assume none: "regExp w (pattern patInfo) = None"
  then have ne: "pattern patInfo \<noteq> []"
    by (auto simp: regExp_def split: if_splits)
  then have ne': "foldCase caseSensitive (pattern patInfo) \<noteq> []"
    by (simp add: foldCase_def toLowerCase_def)
  have len: "length (foldCase caseSensitive (pattern patInfo)) = length (pattern patInfo)"
    by (simp add: foldCase_def toLowerCase_def)
  from literalLoop_occurrences [OF ne', of "foldCase caseSensitive content" 0]
  have "literalLoop (foldCase caseSensitive content) (foldCase caseSensitive (pattern patInfo))
          (indexOfFrom (foldCase caseSensitive content) (foldCase caseSensitive (pattern patInfo)) 0)
        = occurrences (foldCase caseSensitive content) (foldCase caseSensitive (pattern patInfo))"
    by (simp add: occurrences_def)
  with none len show "findMatches w content lines patInfo caseSensitive contextLines =
        map (\<lambda>index. mkMatch content lines patInfo contextLines index
               (take (length (pattern patInfo)) (drop index content)))
          (occurrences (foldCase caseSensitive content) (foldCase caseSensitive (pattern patInfo)))"
    by (simp add: findMatches_def foldCase_def Let_def split: if_splits)
qed

theorem findMatches_fallback_witness:
  "regExp exampleWorld (pattern emptyPattern) = Some Eps \<and>
   map line (findMatches exampleWorld ''ab'' [''ab''] emptyPattern False 0) = [1, 1, 1] \<and>
   regExp exampleWorld (pattern unbalanced) = None \<and>
   map line (findMatches exampleWorld twoLines (splitOn newline twoLines) unbalanced False 0)
     = [1, 2] \<and>
   map matchText (findMatches exampleWorld twoLines (splitOn newline twoLines) unbalanced False 0)
     = [''a('', ''A('']"
proof -
  have some: "regExp exampleWorld (pattern emptyPattern) = Some Eps"
    by (simp add: regExp_def emptyPattern_def mkPattern_def)
  have none: "regExp exampleWorld (pattern unbalanced) = None"
    by (simp add: regExp_def unbalanced_def mkPattern_def exampleWorld_def)
  from findMatches_fallback [of exampleWorld emptyPattern "''ab''" "[''ab'']" False 0] some
  have viaRegex: "findMatches exampleWorld ''ab'' [''ab''] emptyPattern False 0 =
      map (\<lambda>(index, txt). mkMatch ''ab'' [''ab''] emptyPattern 0 index txt)
        (rxMatchAll Eps (\<not> False) None ''ab'' 0)"
    by blast
  from findMatches_fallback [of exampleWorld unbalanced twoLines "splitOn newline twoLines" False 0]
    none
  have viaLiteral: "findMatches exampleWorld twoLines (splitOn newline twoLines) unbalanced False 0 =
      map (\<lambda>index. mkMatch twoLines (splitOn newline twoLines) unbalanced 0 index
             (take (length (pattern unbalanced)) (drop index twoLines)))
        (occurrences (foldCase False twoLines) (foldCase False (pattern unbalanced)))"
    by blast
  have r1: "map line (map (\<lambda>(index, txt). mkMatch ''ab'' [''ab''] emptyPattern 0 index txt)
        (rxMatchAll Eps (\<not> False) None ''ab'' 0)) = [1, 1, 1]"
    by code_simp
  have r2: "map line (map (\<lambda>index. mkMatch twoLines (splitOn newline twoLines) unbalanced 0 index
             (take (length (pattern unbalanced)) (drop index twoLines)))
        (occurrences (foldCase False twoLines) (foldCase False (pattern unbalanced)))) = [1, 2]"
    by code_simp
  have r3: "map matchText (map (\<lambda>index. mkMatch twoLines (splitOn newline twoLines) unbalanced 0 index
             (take (length (pattern unbalanced)) (drop index twoLines)))
        (occurrences (foldCase False twoLines) (foldCase False (pattern unbalanced))))
      = [''a('', ''A('']"
    by code_simp
  from some none r1 r2 r3 show ?thesis
    by (simp only: viaRegex viaLiteral)
qed

section \<open>Properties of the log tracer\<close>





















lemma trace_example_report:
  "traceErrorLogToSource exampleEngine exampleWorld relativeString ''error: needle'' [[''srv'']]
     twoResults =
   Inr (''1. lib/deep/far.js:1'' @ [newline] @ ''   needle [relevance: 18]'' @ [newline, newline] @
   ''2. lib/util.js:1'' @ [newline] @ ''   needle [relevance: 18]'' @ [newline, newline] @
   ''3. main.js:1'' @ [newline] @ ''   needle [relevance: 18]'')"
  by code_simp

section \<open>Properties of the dependency resolver\<close>



























end
